theory Spec2Isabelle
  imports Complex_Main
begin

section \<open>JavaScript numbers\<close>

text \<open>
  A Number is an IEEE 754 binary64 value. The numbers a message carries are finite (JSON
  has no other) and are kept as the reals they denote, \<^verbatim>\<open>+0\<close> and \<^verbatim>\<open>-0\<close> both as
  \<open>0\<close>. The result of an arithmetic operation is the exact result rounded to the nearest
  binary64 value, ties to even, and can be infinite or \<^verbatim>\<open>NaN\<close>.
\<close>

datatype jsnum = Num real | PosInf | NegInf | NaN

text \<open>The exponent of the binade of \<open>x\<close>, not below that of the subnormal numbers, and
  the distance between neighbouring binary64 values there (53 significant bits).\<close>

definition binade :: "real \<Rightarrow> int" where
  "binade x = max \<lfloor>log 2 \<bar>x\<bar>\<rfloor> (- 1022)"

definition ulp :: "real \<Rightarrow> real" where
  "ulp x = 2 powi (binade x - 52)"

text \<open>Rounding to the nearest integer, ties to even.\<close>

definition round_even :: "real \<Rightarrow> int" where
  "round_even m =
     (if m - of_int \<lfloor>m\<rfloor> < 1 / 2 then \<lfloor>m\<rfloor>
      else if m - of_int \<lfloor>m\<rfloor> > 1 / 2 then \<lfloor>m\<rfloor> + 1
      else if even \<lfloor>m\<rfloor> then \<lfloor>m\<rfloor> else \<lfloor>m\<rfloor> + 1)"

text \<open>Rounding to the nearest binary64 value, the exponent unbounded above.\<close>

definition fl :: "real \<Rightarrow> real" where
  "fl x = (if x = 0 then 0 else of_int (round_even (x / ulp x)) * ulp x)"

text \<open>\<^verbatim>\<open>Number.MAX_VALUE\<close>; a result that rounds beyond it is infinite.\<close>

definition max_double :: real where
  "max_double = 2 ^ 1024 - 2 ^ 971"

definition rounded :: "real \<Rightarrow> jsnum" where
  "rounded x =
     (if fl x > max_double then PosInf
      else if fl x < - max_double then NegInf
      else Num (fl x))"

text \<open>\<^verbatim>\<open>x - y\<close>\<close>

fun js_sub :: "jsnum \<Rightarrow> jsnum \<Rightarrow> jsnum" where
  "js_sub (Num a) (Num b) = rounded (a - b)"
| "js_sub NaN y = NaN"
| "js_sub x NaN = NaN"
| "js_sub PosInf PosInf = NaN"
| "js_sub NegInf NegInf = NaN"
| "js_sub PosInf y = PosInf"
| "js_sub NegInf y = NegInf"
| "js_sub (Num a) PosInf = NegInf"
| "js_sub (Num a) NegInf = PosInf"

text \<open>\<^verbatim>\<open>x + y\<close>\<close>

fun js_add :: "jsnum \<Rightarrow> jsnum \<Rightarrow> jsnum" where
  "js_add (Num a) (Num b) = rounded (a + b)"
| "js_add NaN y = NaN"
| "js_add x NaN = NaN"
| "js_add PosInf NegInf = NaN"
| "js_add NegInf PosInf = NaN"
| "js_add PosInf y = PosInf"
| "js_add NegInf y = NegInf"
| "js_add (Num a) PosInf = PosInf"
| "js_add (Num a) NegInf = NegInf"

text \<open>\<^verbatim>\<open>Math.pow(x, 2)\<close>, correctly rounded: the square \<^verbatim>\<open>x * x\<close>.\<close>

fun Math_pow2 :: "jsnum \<Rightarrow> jsnum" where
  "Math_pow2 (Num a) = rounded (a * a)"
| "Math_pow2 PosInf = PosInf"
| "Math_pow2 NegInf = PosInf"
| "Math_pow2 NaN = NaN"

text \<open>\<^verbatim>\<open>Math.sqrt(x)\<close>, correctly rounded.\<close>

fun Math_sqrt :: "jsnum \<Rightarrow> jsnum" where
  "Math_sqrt (Num a) = (if a < 0 then NaN else Num (fl (sqrt a)))"
| "Math_sqrt PosInf = PosInf"
| "Math_sqrt NegInf = NaN"
| "Math_sqrt NaN = NaN"

text \<open>\<^verbatim>\<open>x > y\<close>\<close>

fun js_gt :: "jsnum \<Rightarrow> jsnum \<Rightarrow> bool" where
  "js_gt (Num a) (Num b) = (a > b)"
| "js_gt NaN y = False"
| "js_gt x NaN = False"
| "js_gt PosInf PosInf = False"
| "js_gt PosInf y = True"
| "js_gt NegInf y = False"
| "js_gt (Num a) PosInf = False"
| "js_gt (Num a) NegInf = True"

section \<open>The operation log: \<^verbatim>\<open>class DrawingState\<close> (src/server/drawing-state.js)\<close>

text \<open>
  An absent (\<^verbatim>\<open>undefined\<close>) property is \<open>None\<close>. An operation id \<^verbatim>\<open>op_<Date.now()>_<counter>\<close> is the pair of its two
  numbers. The clock is a parameter of every function that reads \<^verbatim>\<open>Date.now()\<close>.
  A \<^verbatim>\<open>TypeError\<close> raised by reading a property of \<^verbatim>\<open>undefined\<close> is the value
  \<open>Inl TypeError\<close>.
\<close>

record point =
  point_x :: real
  point_y :: real

datatype opid = OpId nat nat

text \<open>The object literal a caller hands to \<^verbatim>\<open>addOperation\<close>.\<close>

record op_fields =
  op_type :: string
  op_userId :: "string option"
  op_strokeId :: "string option"
  op_tool :: "string option"
  op_color :: "string option"
  op_lineWidth :: "real option"
  op_point :: "point option"
  op_radius :: "real option"

text \<open>An entry of \<^verbatim>\<open>operationHistory\<close>: the fields above, the id, the timestamp and
  the three undo markers (a deleted marker is \<open>False\<close> / \<open>None\<close>).\<close>

record operation = op_fields +
  op_id :: opid
  op_timestamp :: nat
  op_undone :: bool
  op_undoneBy :: "string option"
  op_undoneAt :: "nat option"

record stroke =
  s_id :: "string option"
  s_userId :: "string option"
  s_tool :: "string option"
  s_color :: "string option"
  s_lineWidth :: "real option"
  s_points :: "point list"

datatype error = TypeError

record drawing_state =
  operationHistory :: "operation list"
  currentHistoryIndex :: int
  strokes :: "stroke list"
  userOperations :: "string \<rightharpoonup> opid list"
  operationIdCounter :: nat

text \<open>\<^verbatim>\<open>constructor()\<close>\<close>

definition newDrawingState :: drawing_state where
  "newDrawingState =
     \<lparr>operationHistory = [], currentHistoryIndex = - 1, strokes = [],
      userOperations = Map.empty, operationIdCounter = 0\<rparr>"

text \<open>\<^verbatim>\<open>x || d\<close> on a number: \<^verbatim>\<open>undefined\<close> and \<^verbatim>\<open>0\<close> are falsy.\<close>

definition num_or :: "real option \<Rightarrow> real \<Rightarrow> real" where
  "num_or v d = (case v of None \<Rightarrow> d | Some r \<Rightarrow> if r = 0 then d else r)"

text \<open>\<^verbatim>\<open>x || d\<close> on a string: \<^verbatim>\<open>undefined\<close> and the empty string are falsy.\<close>

definition str_or :: "string option \<Rightarrow> string \<Rightarrow> string" where
  "str_or v d = (case v of None \<Rightarrow> d | Some t \<Rightarrow> if t = [] then d else t)"

text \<open>\<^verbatim>\<open>Math.sqrt(Math.pow(point.x - erasePoint.x, 2) + Math.pow(point.y - erasePoint.y, 2))\<close>\<close>

definition distance :: "point \<Rightarrow> point \<Rightarrow> jsnum" where
  "distance p e =
     Math_sqrt
       (js_add (Math_pow2 (js_sub (Num (point_x p)) (Num (point_x e))))
               (Math_pow2 (js_sub (Num (point_y p)) (Num (point_y e)))))"

text \<open>The callback of \<^verbatim>\<open>stroke.points.filter\<close>: reading \<^verbatim>\<open>erasePoint.x\<close> throws when the
  operation carries no point.\<close>

definition keep_point :: "point option \<Rightarrow> real \<Rightarrow> point \<Rightarrow> error + bool" where
  "keep_point erasePoint eraseRadius p =
     (case erasePoint of
        None \<Rightarrow> Inl TypeError
      | Some e \<Rightarrow> Inr (js_gt (distance p e) (Num eraseRadius)))"

fun filter_points :: "(point \<Rightarrow> error + bool) \<Rightarrow> point list \<Rightarrow> error + point list" where
  "filter_points f [] = Inr []"
| "filter_points f (p # ps) =
     (case f p of
        Inl e \<Rightarrow> Inl e
      | Inr b \<Rightarrow>
          (case filter_points f ps of
             Inl e \<Rightarrow> Inl e
           | Inr qs \<Rightarrow> Inr (if b then p # qs else qs)))"

text \<open>The callback of \<^verbatim>\<open>this.strokes.map\<close> in the erase branch; \<open>None\<close> is \<^verbatim>\<open>null\<close>.\<close>

definition erase_stroke :: "point option \<Rightarrow> real \<Rightarrow> stroke \<Rightarrow> error + stroke option" where
  "erase_stroke erasePoint eraseRadius s =
     (if s_tool s = Some ''eraser'' then Inr (Some s)
      else
        (case filter_points (keep_point erasePoint eraseRadius) (s_points s) of
           Inl e \<Rightarrow> Inl e
         | Inr filteredPoints \<Rightarrow>
             if length filteredPoints = 0 then Inr None
             else Inr (Some (s\<lparr>s_points := filteredPoints\<rparr>))))"

fun map_strokes :: "(stroke \<Rightarrow> error + stroke option) \<Rightarrow> stroke list \<Rightarrow> error + stroke option list" where
  "map_strokes f [] = Inr []"
| "map_strokes f (s # ss) =
     (case f s of
        Inl e \<Rightarrow> Inl e
      | Inr r \<Rightarrow>
          (case map_strokes f ss of
             Inl e \<Rightarrow> Inl e
           | Inr rs \<Rightarrow> Inr (r # rs)))"

text \<open>\<^verbatim>\<open>stroke.points.push(operation.point)\<close> on the stroke that \<^verbatim>\<open>find\<close> returned: the
  first stroke of the array with that id.\<close>

fun push_point :: "string option \<Rightarrow> point \<Rightarrow> stroke list \<Rightarrow> stroke list" where
  "push_point sid p [] = []"
| "push_point sid p (s # ss) =
     (if s_id s = sid then s\<lparr>s_points := s_points s @ [p]\<rparr> # ss
      else s # push_point sid p ss)"

definition applyOperation :: "operation \<Rightarrow> stroke list \<Rightarrow> error + stroke list" where
  "applyOperation operation ss =
     (if op_type operation = ''draw'' then
        (let ss1 =
               (case find (\<lambda>s. s_id s = op_strokeId operation) ss of
                  Some s \<Rightarrow> ss
                | None \<Rightarrow>
                    ss @ [\<lparr>s_id = op_strokeId operation, s_userId = op_userId operation,
                           s_tool = op_tool operation, s_color = op_color operation,
                           s_lineWidth = op_lineWidth operation, s_points = []\<rparr>])
         in (case op_point operation of
               Some p \<Rightarrow> Inr (push_point (op_strokeId operation) p ss1)
             | None \<Rightarrow> Inr ss1))
      else if op_type operation = ''erase'' then
        (let erasePoint = op_point operation;
             eraseRadius = num_or (op_radius operation) 20
         in (case map_strokes (erase_stroke erasePoint eraseRadius) ss of
               Inl e \<Rightarrow> Inl e
             | Inr rs \<Rightarrow> Inr (map the (filter (\<lambda>r. r \<noteq> None) rs))))
      else if op_type operation = ''clear'' then Inr []
      else Inr ss)"

text \<open>\<^verbatim>\<open>xs.slice(0, e)\<close>: a negative end counts from the end of the array.\<close>

definition slice0 :: "'a list \<Rightarrow> int \<Rightarrow> 'a list" where
  "slice0 xs e = (if e < 0 then take (nat (int (length xs) + e)) xs else take (nat e) xs)"

text \<open>\<^verbatim>\<open>{ id: operationId, ...operation, timestamp: Date.now() }\<close>: the callers in
  server.js pass literals without \<^verbatim>\<open>id\<close>, \<^verbatim>\<open>timestamp\<close> or undo markers.

  \<^verbatim>\<open>addOperation(operation)\<close>; \<open>t_id\<close> and \<open>t_stamp\<close> are its two readings of the
  clock. The entry is pushed and the index advanced before the fold, the user index is
  extended after it.\<close>

definition with_id :: "op_fields \<Rightarrow> opid \<Rightarrow> nat \<Rightarrow> operation" where
  "with_id operation operationId t_stamp =
     \<lparr>op_type = op_type operation, op_userId = op_userId operation,
      op_strokeId = op_strokeId operation, op_tool = op_tool operation,
      op_color = op_color operation, op_lineWidth = op_lineWidth operation,
      op_point = op_point operation, op_radius = op_radius operation,
      op_id = operationId, op_timestamp = t_stamp, op_undone = False,
      op_undoneBy = None, op_undoneAt = None\<rparr>"

definition addOperation ::
  "nat \<Rightarrow> nat \<Rightarrow> op_fields \<Rightarrow> drawing_state \<Rightarrow> error + (opid \<times> drawing_state)" where
  "addOperation t_id t_stamp operation st =
     (let h0 =
            (if currentHistoryIndex st < int (length (operationHistory st)) - 1
             then slice0 (operationHistory st) (currentHistoryIndex st + 1)
             else operationHistory st);
          c = Suc (operationIdCounter st);
          operationId = OpId t_id c;
          operationWithId = with_id operation operationId t_stamp
      in (case applyOperation operationWithId (strokes st) of
            Inl e \<Rightarrow> Inl e
          | Inr ss \<Rightarrow>
              Inr (operationId,
                   st\<lparr>operationHistory := h0 @ [operationWithId],
                      currentHistoryIndex := currentHistoryIndex st + 1,
                      strokes := ss,
                      operationIdCounter := c,
                      userOperations :=
                        (case op_userId operation of
                           None \<Rightarrow> userOperations st
                         | Some u \<Rightarrow>
                             if u = [] then userOperations st
                             else (userOperations st)
                                    (u \<mapsto> (case userOperations st u of
                                              None \<Rightarrow> []
                                            | Some ids \<Rightarrow> ids) @ [operationId]))\<rparr>)))"

text \<open>The loop of \<^verbatim>\<open>rebuildState\<close> over \<^verbatim>\<open>operationHistory\<close>.\<close>

fun replay :: "operation list \<Rightarrow> stroke list \<Rightarrow> error + stroke list" where
  "replay [] ss = Inr ss"
| "replay (operation # ops) ss =
     (if \<not> op_undone operation then
        (case applyOperation operation ss of
           Inl e \<Rightarrow> Inl e
         | Inr ss' \<Rightarrow> replay ops ss')
      else replay ops ss)"

definition rebuildState :: "drawing_state \<Rightarrow> error + drawing_state" where
  "rebuildState st =
     (case replay (operationHistory st) [] of
        Inl e \<Rightarrow> Inl e
      | Inr ss \<Rightarrow> Inr (st\<lparr>strokes := ss, userOperations := Map.empty\<rparr>))"

text \<open>The backward scans of \<^verbatim>\<open>undo\<close> and \<^verbatim>\<open>redo\<close>:
  \<^verbatim>\<open>for (let i = length - 1; i >= 0; i--)\<close>, stopping at the first hit. The third
  argument is \<open>i + 1\<close>.\<close>

fun scan_back :: "(operation \<Rightarrow> bool) \<Rightarrow> operation list \<Rightarrow> nat \<Rightarrow> nat option" where
  "scan_back P h 0 = None"
| "scan_back P h (Suc i) = (if P (h ! i) then Some i else scan_back P h i)"

definition undo ::
  "nat \<Rightarrow> string \<Rightarrow> drawing_state \<Rightarrow> error + (operation option \<times> drawing_state)" where
  "undo now userId st =
     (let userOps = (case userOperations st userId of None \<Rightarrow> [] | Some ids \<Rightarrow> ids)
      in if length userOps = 0 then Inr (None, st)
         else
           (case scan_back (\<lambda>op. op_id op \<in> set userOps \<and> \<not> op_undone op)
                   (operationHistory st) (length (operationHistory st)) of
              None \<Rightarrow> Inr (None, st)
            | Some i \<Rightarrow>
                (let operationToUndo =
                       (operationHistory st ! i)
                         \<lparr>op_undone := True, op_undoneBy := Some userId,
                          op_undoneAt := Some now\<rparr>;
                     st1 = st\<lparr>operationHistory := (operationHistory st)[i := operationToUndo]\<rparr>
                 in (case rebuildState st1 of
                       Inl e \<Rightarrow> Inl e
                     | Inr st2 \<Rightarrow> Inr (Some operationToUndo, st2)))))"

definition redo ::
  "string \<Rightarrow> drawing_state \<Rightarrow> error + (operation option \<times> drawing_state)" where
  "redo userId st =
     (case scan_back
             (\<lambda>op. op_undone op \<and> op_userId op = Some userId \<and> op_undoneBy op = Some userId)
             (operationHistory st) (length (operationHistory st)) of
        None \<Rightarrow> Inr (None, st)
      | Some i \<Rightarrow>
          (let operationToRedo =
                 (operationHistory st ! i)
                   \<lparr>op_undone := False, op_undoneBy := None, op_undoneAt := None\<rparr>;
               st1 = st\<lparr>operationHistory := (operationHistory st)[i := operationToRedo]\<rparr>
           in (case rebuildState st1 of
                 Inl e \<Rightarrow> Inl e
               | Inr st2 \<Rightarrow> Inr (Some operationToRedo, st2))))"

definition getState :: "drawing_state \<Rightarrow> stroke list" where
  "getState st = strokes st"

definition getHistory :: "drawing_state \<Rightarrow> operation list" where
  "getHistory st = operationHistory st"

text \<open>\<^verbatim>\<open>clear()\<close>: the id counter is the only field it keeps.\<close>

definition clear :: "drawing_state \<Rightarrow> drawing_state" where
  "clear st =
     st\<lparr>strokes := [], operationHistory := [], currentHistoryIndex := - 1,
        userOperations := Map.empty\<rparr>"

record saved_state =
  sv_strokes :: "stroke list option"
  sv_operationHistory :: "operation list option"
  sv_timestamp :: "nat option"

definition exportState :: "nat \<Rightarrow> drawing_state \<Rightarrow> saved_state" where
  "exportState now st =
     \<lparr>sv_strokes = Some (strokes st), sv_operationHistory = Some (operationHistory st),
      sv_timestamp = Some now\<rparr>"

text \<open>The loop of \<^verbatim>\<open>importState\<close> that rebuilds the user index.\<close>

fun index_ops :: "operation list \<Rightarrow> (string \<rightharpoonup> opid list) \<Rightarrow> (string \<rightharpoonup> opid list)" where
  "index_ops [] m = m"
| "index_ops (operation # ops) m =
     index_ops ops
       (case op_userId operation of
          None \<Rightarrow> m
        | Some u \<Rightarrow>
            if u \<noteq> [] \<and> \<not> op_undone operation
            then m(u \<mapsto> (case m u of None \<Rightarrow> [] | Some ids \<Rightarrow> ids) @ [op_id operation])
            else m)"

definition importState :: "saved_state \<Rightarrow> drawing_state \<Rightarrow> drawing_state" where
  "importState state st =
     (let ss = (case sv_strokes state of None \<Rightarrow> [] | Some v \<Rightarrow> v);
          h = (case sv_operationHistory state of None \<Rightarrow> [] | Some v \<Rightarrow> v)
      in st\<lparr>strokes := ss, operationHistory := h,
            currentHistoryIndex := int (length h) - 1,
            userOperations := index_ops h Map.empty\<rparr>)"

subsection \<open>Sequences of calls on one log\<close>

text \<open>A state of the log built by the class's own mutators, starting from
  \<^verbatim>\<open>new DrawingState()\<close>; an exception ends the run.\<close>

datatype call =
    AddOperation nat nat op_fields
  | Undo nat string
  | Redo string
  | Clear

fun do_call :: "call \<Rightarrow> drawing_state \<Rightarrow> error + drawing_state" where
  "do_call (AddOperation t_id t_stamp operation) st =
     (case addOperation t_id t_stamp operation st of
        Inl e \<Rightarrow> Inl e
      | Inr r \<Rightarrow> Inr (snd r))"
| "do_call (Undo now userId) st =
     (case undo now userId st of
        Inl e \<Rightarrow> Inl e
      | Inr r \<Rightarrow> Inr (snd r))"
| "do_call (Redo userId) st =
     (case redo userId st of
        Inl e \<Rightarrow> Inl e
      | Inr r \<Rightarrow> Inr (snd r))"
| "do_call Clear st = Inr (clear st)"

fun run_calls :: "call list \<Rightarrow> drawing_state \<Rightarrow> error + drawing_state" where
  "run_calls [] st = Inr st"
| "run_calls (c # cs) st =
     (case do_call c st of
        Inl e \<Rightarrow> Inl e
      | Inr st' \<Rightarrow> run_calls cs st')"


section \<open>The room registry: \<^verbatim>\<open>class RoomManager\<close> (rooms.js, in src/server/drawing-state.js from line 1872)\<close>

text \<open>
  Every room holds a reference to its own \<^verbatim>\<open>DrawingState\<close> object. The objects live in
  a store indexed by references; \<^verbatim>\<open>new DrawingState()\<close> takes the next unused reference.
  The member sets are referenced from \<^verbatim>\<open>roomUsers\<close> only and are kept as values.
\<close>

record room_manager =
  objects :: "nat \<Rightarrow> drawing_state"
  next_ref :: nat
  rooms :: "string \<rightharpoonup> nat"
  socketToRoom :: "string \<rightharpoonup> string"
  roomUsers :: "string \<rightharpoonup> string set"

definition defaultRoomId :: string where
  "defaultRoomId = ''default''"

definition createRoom :: "string \<Rightarrow> room_manager \<Rightarrow> bool \<times> room_manager" where
  "createRoom roomId rm =
     (if rooms rm roomId \<noteq> None then (False, rm)
      else
        (True,
         rm\<lparr>objects := (objects rm)(next_ref rm := newDrawingState),
            next_ref := Suc (next_ref rm),
            rooms := (rooms rm)(roomId \<mapsto> next_ref rm),
            roomUsers := (roomUsers rm)(roomId \<mapsto> {})\<rparr>))"

text \<open>\<^verbatim>\<open>constructor()\<close>: three empty maps, then \<^verbatim>\<open>this.createRoom(this.defaultRoomId)\<close>.\<close>

definition newRoomManager :: room_manager where
  "newRoomManager =
     snd (createRoom defaultRoomId
            \<lparr>objects = (\<lambda>r. newDrawingState), next_ref = 0, rooms = Map.empty,
             socketToRoom = Map.empty, roomUsers = Map.empty\<rparr>)"

text \<open>\<^verbatim>\<open>leaveRoom(socketId)\<close>; \<^verbatim>\<open>if (roomId)\<close> is false for the empty string too.\<close>

definition leaveRoom :: "string \<Rightarrow> room_manager \<Rightarrow> room_manager" where
  "leaveRoom socketId rm =
     (case socketToRoom rm socketId of
        None \<Rightarrow> rm
      | Some roomId \<Rightarrow>
          if roomId = [] then rm
          else
            (let rm1 =
                   (case roomUsers rm roomId of
                      None \<Rightarrow> rm
                    | Some members \<Rightarrow>
                        rm\<lparr>roomUsers := (roomUsers rm)(roomId \<mapsto> members - {socketId})\<rparr>)
             in rm1\<lparr>socketToRoom := (socketToRoom rm1)(socketId := None)\<rparr>))"

definition joinRoom :: "string \<Rightarrow> string \<Rightarrow> room_manager \<Rightarrow> bool \<times> room_manager" where
  "joinRoom socketId roomId rm =
     (let rm1 = leaveRoom socketId rm;
          rm2 = (if rooms rm1 roomId = None then snd (createRoom roomId rm1) else rm1);
          rm3 = rm2\<lparr>socketToRoom := (socketToRoom rm2)(socketId \<mapsto> roomId)\<rparr>
      in (True,
          (case roomUsers rm3 roomId of
             None \<Rightarrow> rm3
           | Some members \<Rightarrow>
               rm3\<lparr>roomUsers := (roomUsers rm3)(roomId \<mapsto> insert socketId members)\<rparr>)))"

text \<open>\<^verbatim>\<open>this.socketToRoom.get(socketId) || this.defaultRoomId\<close>\<close>

definition getRoomId :: "string \<Rightarrow> room_manager \<Rightarrow> string" where
  "getRoomId socketId rm = str_or (socketToRoom rm socketId) defaultRoomId"

text \<open>\<^verbatim>\<open>getRoomState(roomId)\<close> returns the reference held by the room, or \<^verbatim>\<open>null\<close>.\<close>

definition getRoomState :: "string \<Rightarrow> room_manager \<Rightarrow> nat option" where
  "getRoomState roomId rm = rooms rm roomId"


definition deleteRoom :: "string \<Rightarrow> room_manager \<Rightarrow> bool \<times> room_manager" where
  "deleteRoom roomId rm =
     (if roomId = defaultRoomId then (False, rm)
      else
        (case roomUsers rm roomId of
           Some members \<Rightarrow>
             if members = {} then
               (True,
                rm\<lparr>rooms := (rooms rm)(roomId := None),
                   roomUsers := (roomUsers rm)(roomId := None)\<rparr>)
             else (False, rm)
         | None \<Rightarrow> (False, rm)))"

subsection \<open>Sequences of registry calls\<close>

datatype reg_call =
    CreateRoom string
  | JoinRoom string string
  | LeaveRoom string
  | DeleteRoom string

fun do_reg_call :: "reg_call \<Rightarrow> room_manager \<Rightarrow> room_manager" where
  "do_reg_call (CreateRoom roomId) rm = snd (createRoom roomId rm)"
| "do_reg_call (JoinRoom socketId roomId) rm = snd (joinRoom socketId roomId rm)"
| "do_reg_call (LeaveRoom socketId) rm = leaveRoom socketId rm"
| "do_reg_call (DeleteRoom roomId) rm = snd (deleteRoom roomId rm)"

fun run_registry :: "reg_call list \<Rightarrow> room_manager \<Rightarrow> room_manager" where
  "run_registry [] rm = rm"
| "run_registry (c # cs) rm = run_registry cs (do_reg_call c rm)"

text \<open>Registry calls interleaved with method calls on the log that \<^verbatim>\<open>getRoomState\<close>
  returns for a room, the way server.js reaches a log; a missing room is skipped
  (\<^verbatim>\<open>if (!drawingState) return\<close>), an exception ends the run. The argument of
  \<^verbatim>\<open>importState\<close> is the payload of a \<^verbatim>\<open>load-canvas\<close> message: a value of its
  own, sharing no array with any log.\<close>

datatype log_call =
    Method call
  | ImportState saved_state

fun do_log_call :: "log_call \<Rightarrow> drawing_state \<Rightarrow> error + drawing_state" where
  "do_log_call (Method c) st = do_call c st"
| "do_log_call (ImportState state) st = Inr (importState state st)"

text \<open>A log reached from \<^verbatim>\<open>new DrawingState()\<close> by any of the class's mutators.\<close>

fun run_log_calls :: "log_call list \<Rightarrow> drawing_state \<Rightarrow> error + drawing_state" where
  "run_log_calls [] st = Inr st"
| "run_log_calls (c # cs) st =
     (case do_log_call c st of
        Inl e \<Rightarrow> Inl e
      | Inr st' \<Rightarrow> run_log_calls cs st')"





section \<open>The session coordinator: the socket handlers of server.js (in src/server/drawing-state.js from line 1513)\<close>

text \<open>
  The handlers of \<^verbatim>\<open>connection\<close>, \<^verbatim>\<open>draw-start\<close>, \<^verbatim>\<open>draw-move\<close>,
  \<^verbatim>\<open>erase\<close> and \<^verbatim>\<open>clear\<close>, as the state they leave behind: the messages they
  emit carry no state of the server. The generated user id, user colour and stroke id are
  parameters.
\<close>

record user =
  u_id :: string
  u_username :: string
  u_color :: string
  u_socketId :: string

record server =
  roomManager :: room_manager
  users :: "string \<rightharpoonup> user"

definition newServer :: server where
  "newServer = \<lparr>roomManager = newRoomManager, users = Map.empty\<rparr>"

record draw_data =
  d_strokeId :: "string option"
  d_tool :: "string option"
  d_color :: "string option"
  d_lineWidth :: "real option"
  d_point :: "point option"

record erase_data =
  e_point :: "point option"
  e_radius :: "real option"

text \<open>\<^verbatim>\<open>io.on('connection', ...)\<close>; \<^verbatim>\<open>userId.slice(-6)\<close> is the last six characters.\<close>

definition on_connection :: "string \<Rightarrow> string \<Rightarrow> string \<Rightarrow> server \<Rightarrow> server" where
  "on_connection socketId userId userColor sv =
     sv\<lparr>users :=
          (users sv)
            (socketId \<mapsto>
               \<lparr>u_id = userId,
                u_username = ''User '' @ drop (length userId - 6) userId,
                u_color = userColor, u_socketId = socketId\<rparr>),
        roomManager := snd (joinRoom socketId defaultRoomId (roomManager sv))\<rparr>"

text \<open>The common head of the handlers: the user of the socket, its room, the room's log;
  the handler returns at once when one of them is missing. The body \<open>f\<close> receives the
  user and the log and returns the log as it leaves it.\<close>

definition with_log ::
  "string \<Rightarrow> (user \<Rightarrow> drawing_state \<Rightarrow> error + drawing_state) \<Rightarrow> server \<Rightarrow> error + server" where
  "with_log socketId f sv =
     (case users sv socketId of
        None \<Rightarrow> Inr sv
      | Some usr \<Rightarrow>
          (let roomId = getRoomId socketId (roomManager sv)
           in (case getRoomState roomId (roomManager sv) of
                 None \<Rightarrow> Inr sv
               | Some drawingState \<Rightarrow>
                   (case f usr (objects (roomManager sv) drawingState) of
                      Inl e \<Rightarrow> Inl e
                    | Inr st' \<Rightarrow>
                        Inr (sv\<lparr>roomManager :=
                                  (roomManager sv)
                                    \<lparr>objects :=
                                       (objects (roomManager sv))(drawingState := st')\<rparr>\<rparr>)))))"

text \<open>The operation literal of \<^verbatim>\<open>draw-start\<close> and \<^verbatim>\<open>draw-move\<close>.\<close>

definition draw_operation :: "user \<Rightarrow> string option \<Rightarrow> draw_data \<Rightarrow> op_fields" where
  "draw_operation usr strokeId data =
     \<lparr>op_type = ''draw'', op_userId = Some (u_id usr), op_strokeId = strokeId,
      op_tool = Some (str_or (d_tool data) ''brush''),
      op_color = Some (str_or (d_color data) (u_color usr)),
      op_lineWidth = Some (num_or (d_lineWidth data) 5),
      op_point = d_point data, op_radius = None\<rparr>"

text \<open>\<^verbatim>\<open>socket.on('draw-start', ...)\<close>: the stroke id is generated by the server.\<close>

definition on_draw_start ::
  "nat \<Rightarrow> nat \<Rightarrow> string \<Rightarrow> string \<Rightarrow> draw_data \<Rightarrow> server \<Rightarrow> error + server" where
  "on_draw_start t_id t_stamp strokeId socketId data sv =
     with_log socketId
       (\<lambda>usr st.
          case addOperation t_id t_stamp (draw_operation usr (Some strokeId) data) st of
            Inl e \<Rightarrow> Inl e
          | Inr r \<Rightarrow> Inr (snd r))
       sv"

text \<open>\<^verbatim>\<open>socket.on('draw-move', ...)\<close>: the stroke id is the client's.\<close>

definition on_draw_move ::
  "nat \<Rightarrow> nat \<Rightarrow> string \<Rightarrow> draw_data \<Rightarrow> server \<Rightarrow> error + server" where
  "on_draw_move t_id t_stamp socketId data sv =
     with_log socketId
       (\<lambda>usr st.
          case addOperation t_id t_stamp (draw_operation usr (d_strokeId data) data) st of
            Inl e \<Rightarrow> Inl e
          | Inr r \<Rightarrow> Inr (snd r))
       sv"

definition erase_operation :: "user \<Rightarrow> erase_data \<Rightarrow> op_fields" where
  "erase_operation usr data =
     \<lparr>op_type = ''erase'', op_userId = Some (u_id usr), op_strokeId = None,
      op_tool = None, op_color = None, op_lineWidth = None,
      op_point = e_point data, op_radius = Some (num_or (e_radius data) 20)\<rparr>"

definition on_erase ::
  "nat \<Rightarrow> nat \<Rightarrow> string \<Rightarrow> erase_data \<Rightarrow> server \<Rightarrow> error + server" where
  "on_erase t_id t_stamp socketId data sv =
     with_log socketId
       (\<lambda>usr st.
          case addOperation t_id t_stamp (erase_operation usr data) st of
            Inl e \<Rightarrow> Inl e
          | Inr r \<Rightarrow> Inr (snd r))
       sv"

definition clear_operation :: "user \<Rightarrow> op_fields" where
  "clear_operation usr =
     \<lparr>op_type = ''clear'', op_userId = Some (u_id usr), op_strokeId = None,
      op_tool = None, op_color = None, op_lineWidth = None,
      op_point = None, op_radius = None\<rparr>"

text \<open>\<^verbatim>\<open>socket.on('clear', ...)\<close>: \<^verbatim>\<open>drawingState.addOperation(operation)\<close>, then
  \<^verbatim>\<open>drawingState.clear()\<close>.\<close>

definition on_clear :: "nat \<Rightarrow> nat \<Rightarrow> string \<Rightarrow> server \<Rightarrow> error + server" where
  "on_clear t_id t_stamp socketId sv =
     with_log socketId
       (\<lambda>usr st.
          case addOperation t_id t_stamp (clear_operation usr) st of
            Inl e \<Rightarrow> Inl e
          | Inr r \<Rightarrow> Inr (clear (snd r)))
       sv"

text \<open>The log of the room a socket writes to, if that room exists.\<close>

definition log_of :: "string \<Rightarrow> server \<Rightarrow> drawing_state option" where
  "log_of socketId sv =
     (case getRoomState (getRoomId socketId (roomManager sv)) (roomManager sv) of
        None \<Rightarrow> None
      | Some drawingState \<Rightarrow> Some (objects (roomManager sv) drawingState))"

section \<open>Invariants\<close>

subsection \<open>Of a log\<close>

text \<open>The history index points at the last entry, so \<^verbatim>\<open>addOperation\<close> truncates
  nothing.\<close>

definition index_at_end :: "drawing_state \<Rightarrow> bool" where
  "index_at_end st \<longleftrightarrow> currentHistoryIndex st = int (length (operationHistory st)) - 1"

text \<open>The strokes are the replay of the log.\<close>

definition derived :: "drawing_state \<Rightarrow> bool" where
  "derived st \<longleftrightarrow> replay (operationHistory st) [] = Inr (strokes st)"

text \<open>\<^verbatim>\<open>this.userOperations.get(userId) || []\<close>\<close>

definition user_ids :: "drawing_state \<Rightarrow> string \<Rightarrow> opid list" where
  "user_ids st u = (case userOperations st u of None \<Rightarrow> [] | Some ids \<Rightarrow> ids)"

text \<open>The user index lists, per user, the ids of that user's entries that are not flagged
  undone, from position \<open>k\<close> of the log on: the entries added since the index was last
  cleared by a rebuild, or all of them after \<^verbatim>\<open>importState\<close>.\<close>

definition indexed_from :: "nat \<Rightarrow> drawing_state \<Rightarrow> bool" where
  "indexed_from k st \<longleftrightarrow>
     k \<le> length (operationHistory st) \<and>
     (\<forall>u. user_ids st u =
        (if u = [] then []
         else map op_id
                (filter (\<lambda>operation. op_userId operation = Some u \<and> \<not> op_undone operation)
                   (drop k (operationHistory st)))))"

text \<open>What every mutator of the class keeps, \<^verbatim>\<open>importState\<close> included.\<close>

definition index_inv :: "drawing_state \<Rightarrow> bool" where
  "index_inv st \<longleftrightarrow> index_at_end st \<and> (\<exists>k. indexed_from k st)"

text \<open>What every mutator but \<^verbatim>\<open>importState\<close> keeps.\<close>

definition log_inv :: "drawing_state \<Rightarrow> bool" where
  "log_inv st \<longleftrightarrow> index_inv st \<and> derived st"

text \<open>The value of \<^verbatim>\<open>erase_stroke\<close> when the operation has a point \<open>e\<close>.\<close>

definition erased :: "point \<Rightarrow> real \<Rightarrow> stroke \<Rightarrow> stroke option" where
  "erased e r s =
     (if s_tool s = Some ''eraser'' then Some s
      else if filter (\<lambda>p. js_gt (distance p e) (Num r)) (s_points s) = [] then None
      else Some (s\<lparr>s_points := filter (\<lambda>p. js_gt (distance p e) (Num r)) (s_points s)\<rparr>))"

subsection \<open>Of the registry\<close>

text \<open>Every room has a member set, and the default room exists.\<close>

definition registry_inv :: "room_manager \<Rightarrow> bool" where
  "registry_inv rm \<longleftrightarrow>
     dom (roomUsers rm) = dom (rooms rm) \<and> rooms rm defaultRoomId \<noteq> None"


section \<open>Example inputs\<close>

text \<open>Example input: a \<^verbatim>\<open>draw\<close> operation of user \<open>u\<close> on stroke \<open>sid\<close>.\<close>

definition ex_draw :: "string \<Rightarrow> string \<Rightarrow> real \<Rightarrow> real \<Rightarrow> op_fields" where
  "ex_draw u sid x y =
     \<lparr>op_type = ''draw'', op_userId = Some u, op_strokeId = Some sid,
      op_tool = Some ''brush'', op_color = Some ''#000000'', op_lineWidth = Some 5,
      op_point = Some \<lparr>point_x = x, point_y = y\<rparr>, op_radius = None\<rparr>"

text \<open>Example input: an \<^verbatim>\<open>erase\<close> operation of user \<open>u\<close>.\<close>

definition ex_erase :: "string \<Rightarrow> real \<Rightarrow> real \<Rightarrow> real option \<Rightarrow> op_fields" where
  "ex_erase u x y r =
     \<lparr>op_type = ''erase'', op_userId = Some u, op_strokeId = None,
      op_tool = None, op_color = None, op_lineWidth = None,
      op_point = Some \<lparr>point_x = x, point_y = y\<rparr>, op_radius = r\<rparr>"

text \<open>Example input: a stroke of the derived state.\<close>

definition ex_stroke :: "string \<Rightarrow> string \<Rightarrow> point list \<Rightarrow> stroke" where
  "ex_stroke sid tool ps =
     \<lparr>s_id = Some sid, s_userId = Some ''u'', s_tool = Some tool,
      s_color = Some ''#000000'', s_lineWidth = Some 5, s_points = ps\<rparr>"

text \<open>Example input: a log holding three strokes, with points at distance 3, 10 and 30
  (stroke \<open>a\<close>), 0 (stroke \<open>b\<close>, drawn with the eraser tool) and 5 (stroke \<open>c\<close>) from
  the origin.\<close>

definition ex_canvas :: drawing_state where
  "ex_canvas =
     newDrawingState
       \<lparr>strokes :=
          [ex_stroke ''a'' ''brush''
             [\<lparr>point_x = 3, point_y = 0\<rparr>, \<lparr>point_x = 6, point_y = 8\<rparr>,
              \<lparr>point_x = 30, point_y = 0\<rparr>],
           ex_stroke ''b'' ''eraser'' [\<lparr>point_x = 0, point_y = 0\<rparr>],
           ex_stroke ''c'' ''brush'' [\<lparr>point_x = 3, point_y = 4\<rparr>]]\<rparr>"

text \<open>Example input: the payload of a \<^verbatim>\<open>draw-start\<close> or \<^verbatim>\<open>draw-move\<close> message.\<close>

definition ex_data :: "string option \<Rightarrow> real option \<Rightarrow> real \<Rightarrow> real \<Rightarrow> draw_data" where
  "ex_data sid lw x y =
     \<lparr>d_strokeId = sid, d_tool = None, d_color = None, d_lineWidth = lw,
      d_point = Some \<lparr>point_x = x, point_y = y\<rparr>\<rparr>"

text \<open>Example input: the server after one client has connected and drawn one point at
  \<open>(10, 0)\<close> with line width 3.\<close>

definition ex_server :: "error + server" where
  "ex_server =
     on_draw_start 1 1 ''s0'' ''sock'' (ex_data None (Some 3) 10 0)
       (on_connection ''sock'' ''user_1_abcdefghi'' ''#FF6B6B'' newServer)"

section \<open>Evaluating JavaScript arithmetic\<close>

lemma binade_eq:
  assumes "2 powi e \<le> \<bar>x\<bar>" "\<bar>x\<bar> < 2 powi (e + 1)" "- 1022 \<le> e"
  shows "binade x = e"
proof -
  have pos: "\<bar>x\<bar> > 0" using assms(1) by (smt (verit) zero_less_power_int)
  have a: "2 powr (of_int e) = (2::real) powi e"
    and b: "2 powr (of_int e + 1) = (2::real) powi (e + 1)"
    using powr_real_of_int' [of 2 e] powr_real_of_int' [of 2 "e + 1"] by simp_all
  have "\<lfloor>log 2 \<bar>x\<bar>\<rfloor> = e"
    using assms(1,2) pos floor_log_eq_powr_iff [of "\<bar>x\<bar>" 2 e] by (simp add: a b)
  then show ?thesis using assms(3) by (simp add: binade_def)
qed

lemma fl_eval:
  assumes "2 powi e \<le> \<bar>x\<bar>" "\<bar>x\<bar> < 2 powi (e + 1)" "- 1022 \<le> e"
  shows "fl x = of_int (round_even (x / 2 powi (e - 52))) * 2 powi (e - 52)"
proof -
  have "x \<noteq> 0" using assms(1) by (smt (verit) zero_less_power_int abs_zero)
  then show ?thesis by (simp add: fl_def ulp_def binade_eq [OF assms])
qed

lemma round_even_int: "round_even (of_int k) = k"
  by (simp add: round_even_def)

lemma fl_exact:
  assumes "2 powi e \<le> \<bar>x\<bar>" "\<bar>x\<bar> < 2 powi (e + 1)" "- 1022 \<le> e"
    and "x / 2 powi (e - 52) = of_int k"
  shows "fl x = x"
proof -
  have "fl x = of_int k * 2 powi (e - 52)"
    by (simp add: fl_eval [OF assms(1-3)] assms(4) round_even_int)
  also have "\<dots> = x" using assms(4) by (simp add: field_simps)
  finally show ?thesis .
qed

lemma binade_bounds:
  fixes x :: real
  assumes "x \<noteq> 0"
  obtains e where "2 powi e \<le> \<bar>x\<bar>" "\<bar>x\<bar> < 2 powi (e + 1)"
proof -
  define e where "e = \<lfloor>log 2 \<bar>x\<bar>\<rfloor>"
  have pos: "\<bar>x\<bar> > 0" using assms by simp
  have a: "2 powr (of_int e) = (2::real) powi e"
    and b: "2 powr (of_int e + 1) = (2::real) powi (e + 1)"
    using powr_real_of_int' [of 2 e] powr_real_of_int' [of 2 "e + 1"] by simp_all
  have "\<lfloor>log 2 \<bar>x\<bar>\<rfloor> = e" by (simp add: e_def)
  with floor_log_eq_powr_iff [of "\<bar>x\<bar>" 2 e] pos
  have "2 powr (of_int e) \<le> \<bar>x\<bar> \<and> \<bar>x\<bar> < 2 powr (of_int e + 1)" by simp
  then have "2 powi e \<le> \<bar>x\<bar> \<and> \<bar>x\<bar> < 2 powi (e + 1)" unfolding a b .
  then show ?thesis using that by blast
qed

lemma fl_of_int:
  assumes "\<bar>n\<bar> < 2 ^ 53"
  shows "fl (of_int n) = of_int n"
proof (cases "n = 0")
  case True
  then show ?thesis by (simp add: fl_def)
next
  case False
  let ?x = "of_int n :: real"
  from False have "?x \<noteq> 0" by simp
  then obtain e where lo: "2 powi e \<le> \<bar>?x\<bar>" and hi: "\<bar>?x\<bar> < 2 powi (e + 1)"
    by (rule binade_bounds)
  have "1 \<le> \<bar>n\<bar>" using False by simp
  then have "(1::real) \<le> of_int \<bar>n\<bar>" by (simp only: of_int_1_le_iff)
  then have ge1: "1 \<le> \<bar>?x\<bar>" by simp
  have e0: "0 \<le> e"
  proof (rule ccontr)
    assume "\<not> 0 \<le> e"
    then have "e + 1 \<le> 0" by simp
    then have "(2::real) powi (e + 1) \<le> 2 powi 0" by (intro power_int_increasing) simp_all
    then show False using hi ge1 by simp
  qed
  have "(of_int \<bar>n\<bar> :: real) < of_int (2 ^ 53)" using assms by (simp only: of_int_less_iff)
  then have lt: "\<bar>?x\<bar> < 2 ^ 53" by simp
  have e52: "e \<le> 52"
  proof (rule ccontr)
    assume "\<not> e \<le> 52"
    then have "53 \<le> e" by simp
    then have "(2::real) powi 53 \<le> 2 powi e" by (intro power_int_increasing) simp_all
    then show False using lo lt by simp
  qed
  have "(2::real) powi (e - 52) = 1 / 2 ^ nat (52 - e)"
    using e52 by (simp add: power_int_def field_simps split: if_splits)
  then have "?x / 2 powi (e - 52) = of_int (n * 2 ^ nat (52 - e))" by simp
  then show ?thesis
    using fl_exact [OF lo hi, of "n * 2 ^ nat (52 - e)"] e0 by simp
qed

lemma max_double_big: "2 ^ 60 \<le> max_double"
  by (simp add: max_double_def)

lemma rounded_small: "\<bar>fl x\<bar> \<le> 2 ^ 60 \<Longrightarrow> rounded x = Num (fl x)"
  using max_double_big by (auto simp: rounded_def)

lemma rounded_of_int: "\<bar>n\<bar> < 2 ^ 53 \<Longrightarrow> rounded (of_int n) = Num (of_int n)"
proof -
  assume a: "\<bar>n\<bar> < 2 ^ 53"
  then have "\<bar>n\<bar> \<le> 2 ^ 60" by simp
  then have "(of_int \<bar>n\<bar> :: real) \<le> of_int (2 ^ 60)" by (simp only: of_int_le_iff)
  then have "\<bar>of_int n :: real\<bar> \<le> 2 ^ 60" by simp
  then show ?thesis using rounded_small [of "of_int n"] by (simp add: fl_of_int [OF a])
qed

lemma rounded_numeral [simp]:
  "numeral k < (2::int) ^ 53 \<Longrightarrow> rounded (numeral k) = Num (numeral k)"
  "numeral k < (2::int) ^ 53 \<Longrightarrow> rounded (- numeral k) = Num (- numeral k)"
  "rounded 0 = Num 0" "rounded 1 = Num 1"
  using rounded_of_int [of "numeral k"] rounded_of_int [of "- numeral k"]
    rounded_of_int [of 0] rounded_of_int [of 1] by simp_all

lemma fl_numeral [simp]:
  "numeral k < (2::int) ^ 53 \<Longrightarrow> fl (numeral k) = numeral k"
  "fl 0 = 0" "fl 1 = 1"
  using fl_of_int [of "numeral k"] fl_of_int [of 0] fl_of_int [of 1] by simp_all

lemma fl_tie: "fl 10000000000000001 = 10000000000000000"
proof -
  have "fl 10000000000000001 =
      of_int (round_even (10000000000000001 / 2 powi (53 - 52))) * 2 powi (53 - 52)"
    by (rule fl_eval) simp_all
  also have "\<dots> = 10000000000000000"
    by (simp add: round_even_def)
  finally show ?thesis .
qed

lemma fl_1e16: "fl 10000000000000000 = 10000000000000000"
  by (rule fl_exact [where e = 53 and k = 5000000000000000]) simp_all

lemma sqrt_1e16: "sqrt 10000000000000000 = 100000000"
  using real_sqrt_abs [of 100000000] by simp

lemma sqrt_100: "sqrt 100 = 10"
  using real_sqrt_abs [of 10] by simp

lemma sqrt_25: "sqrt 25 = 5"
  using real_sqrt_abs [of 5] by simp

lemma sqrt_9: "sqrt 9 = 3"
  using real_sqrt_abs [of 3] by simp

lemma sqrt_900: "sqrt 900 = 30"
  using real_sqrt_abs [of 30] by simp

section \<open>Properties of the log\<close>

lemma replay_append:
  "replay (xs @ ys) ss = (case replay xs ss of Inl e \<Rightarrow> Inl e | Inr ss' \<Rightarrow> replay ys ss')"
  by (induction xs arbitrary: ss) (auto split: sum.splits)

lemma applyOperation_markers:
  "applyOperation (operation\<lparr>op_undone := a, op_undoneBy := b, op_undoneAt := c\<rparr>) ss
     = applyOperation operation ss"
  by (simp add: applyOperation_def cong: option.case_cong)

lemma addOperation_at_end:
  assumes "index_at_end st"
  shows "addOperation t_id t_stamp f st =
     (case applyOperation (with_id f (OpId t_id (Suc (operationIdCounter st))) t_stamp) (strokes st) of
        Inl e \<Rightarrow> Inl e
      | Inr ss \<Rightarrow>
          Inr (OpId t_id (Suc (operationIdCounter st)),
               st\<lparr>operationHistory :=
                     operationHistory st @ [with_id f (OpId t_id (Suc (operationIdCounter st))) t_stamp],
                  currentHistoryIndex := currentHistoryIndex st + 1,
                  strokes := ss,
                  operationIdCounter := Suc (operationIdCounter st),
                  userOperations :=
                    (case op_userId f of
                       None \<Rightarrow> userOperations st
                     | Some u \<Rightarrow>
                         if u = [] then userOperations st
                         else (userOperations st)
                                (u \<mapsto> user_ids st u @ [OpId t_id (Suc (operationIdCounter st))]))\<rparr>))"
  using assms by (auto simp: addOperation_def index_at_end_def Let_def user_ids_def split: sum.splits option.splits)

lemma with_id_sel [simp]:
  "op_undone (with_id f i t) = False" "op_id (with_id f i t) = i"
  "op_userId (with_id f i t) = op_userId f" "op_type (with_id f i t) = op_type f"
  "op_strokeId (with_id f i t) = op_strokeId f" "op_point (with_id f i t) = op_point f"
  "op_radius (with_id f i t) = op_radius f" "op_tool (with_id f i t) = op_tool f"
  "op_color (with_id f i t) = op_color f" "op_lineWidth (with_id f i t) = op_lineWidth f"
  by (simp_all add: with_id_def)

lemma addOperation_result:
  assumes "index_at_end st" "addOperation t_id t_stamp f st = Inr (i, st')"
  shows "\<exists>ss.
     applyOperation (with_id f (OpId t_id (Suc (operationIdCounter st))) t_stamp) (strokes st) = Inr ss \<and>
     st' = st\<lparr>operationHistory :=
                  operationHistory st @ [with_id f (OpId t_id (Suc (operationIdCounter st))) t_stamp],
               currentHistoryIndex := currentHistoryIndex st + 1,
               strokes := ss,
               operationIdCounter := Suc (operationIdCounter st),
               userOperations :=
                 (case op_userId f of
                    None \<Rightarrow> userOperations st
                  | Some u \<Rightarrow>
                      if u = [] then userOperations st
                      else (userOperations st)
                             (u \<mapsto> user_ids st u @ [OpId t_id (Suc (operationIdCounter st))]))\<rparr>"
  using assms(2) by (auto simp: addOperation_at_end [OF assms(1)] split: sum.splits)

lemma index_inv_addOperation:
  assumes "index_inv st" "addOperation t_id t_stamp f st = Inr (i, st')"
  shows "index_inv st'"
proof -
  from assms(1) obtain k where e: "index_at_end st" and k: "indexed_from k st"
    by (auto simp: index_inv_def)
  let ?op = "with_id f (OpId t_id (Suc (operationIdCounter st))) t_stamp"
  from addOperation_result [OF e assms(2)] obtain ss where
    st': "st' = st\<lparr>operationHistory := operationHistory st @ [?op],
                  currentHistoryIndex := currentHistoryIndex st + 1,
                  strokes := ss,
                  operationIdCounter := Suc (operationIdCounter st),
                  userOperations :=
                    (case op_userId f of
                       None \<Rightarrow> userOperations st
                     | Some u \<Rightarrow>
                         if u = [] then userOperations st
                         else (userOperations st)
                                (u \<mapsto> user_ids st u @ [OpId t_id (Suc (operationIdCounter st))]))\<rparr>"
    by blast
  have 1: "index_at_end st'" using e by (simp add: st' index_at_end_def)
  have kl: "k \<le> length (operationHistory st)" using k by (simp add: indexed_from_def)
  have 3: "indexed_from k st'"
    unfolding indexed_from_def
  proof (intro conjI allI)
    show "k \<le> length (operationHistory st')" using kl by (simp add: st')
  next
    fix u
    have ui: "user_ids st' u =
        (if op_userId f = Some u \<and> u \<noteq> []
         then user_ids st u @ [OpId t_id (Suc (operationIdCounter st))] else user_ids st u)"
      by (auto simp: st' user_ids_def split: option.splits)
    have old: "user_ids st u =
        (if u = [] then []
         else map op_id
                (filter (\<lambda>operation. op_userId operation = Some u \<and> \<not> op_undone operation)
                   (drop k (operationHistory st))))"
      using k by (simp add: indexed_from_def)
    show "user_ids st' u =
        (if u = [] then []
         else map op_id
                (filter (\<lambda>operation. op_userId operation = Some u \<and> \<not> op_undone operation)
                   (drop k (operationHistory st'))))"
      unfolding ui old using kl by (simp add: st')
  qed
  show ?thesis using 1 3 by (auto simp: index_inv_def)
qed

lemma derived_addOperation:
  assumes "index_at_end st" "derived st" "addOperation t_id t_stamp f st = Inr (i, st')"
  shows "derived st'"
proof -
  from addOperation_result [OF assms(1,3)] obtain ss where
    "applyOperation (with_id f (OpId t_id (Suc (operationIdCounter st))) t_stamp) (strokes st) = Inr ss"
    "operationHistory st' =
       operationHistory st @ [with_id f (OpId t_id (Suc (operationIdCounter st))) t_stamp]"
    "strokes st' = ss"
    by auto
  then show ?thesis using assms(2) by (simp add: derived_def replay_append)
qed

lemma rebuildState_inv:
  assumes "index_at_end st" "rebuildState st = Inr st'"
  shows "log_inv st'"
proof -
  from assms(2) obtain ss where r: "replay (operationHistory st) [] = Inr ss"
    and st': "st' = st\<lparr>strokes := ss, userOperations := Map.empty\<rparr>"
    by (auto simp: rebuildState_def split: sum.splits)
  have "indexed_from (length (operationHistory st)) st'"
    by (simp add: st' indexed_from_def user_ids_def)
  then show "log_inv st'" using assms(1) r
    by (auto simp: log_inv_def index_inv_def st' index_at_end_def derived_def)
qed

lemma undo_inv:
  assumes "index_inv st" "undo now u st = Inr (r, st')"
  shows "index_inv st'" and "derived st \<Longrightarrow> derived st'"
proof -
  have "index_inv st' \<and> (derived st \<longrightarrow> derived st')"
  proof (cases r)
    case None
    with assms show ?thesis
      by (auto simp: undo_def Let_def split: if_splits option.splits sum.splits)
  next
    case (Some a)
    with assms(2) obtain st1 where "rebuildState st1 = Inr st'" "index_at_end st1 = index_at_end st"
      by (auto simp: undo_def Let_def index_at_end_def split: if_splits option.splits sum.splits)
    with assms(1) show ?thesis
      using rebuildState_inv [of st1 st'] by (simp add: log_inv_def index_inv_def)
  qed
  then show "index_inv st'" and "derived st \<Longrightarrow> derived st'" by simp_all
qed

lemma redo_inv:
  assumes "index_inv st" "redo u st = Inr (r, st')"
  shows "index_inv st'" and "derived st \<Longrightarrow> derived st'"
proof -
  have "index_inv st' \<and> (derived st \<longrightarrow> derived st')"
  proof (cases r)
    case None
    with assms show ?thesis
      by (auto simp: redo_def Let_def split: if_splits option.splits sum.splits)
  next
    case (Some a)
    with assms(2) obtain st1 where "rebuildState st1 = Inr st'" "index_at_end st1 = index_at_end st"
      by (auto simp: redo_def Let_def index_at_end_def split: if_splits option.splits sum.splits)
    with assms(1) show ?thesis
      using rebuildState_inv [of st1 st'] by (simp add: log_inv_def index_inv_def)
  qed
  then show "index_inv st'" and "derived st \<Longrightarrow> derived st'" by simp_all
qed

lemma log_inv_clear: "log_inv (clear st)"
  by (auto simp: log_inv_def index_inv_def clear_def index_at_end_def derived_def
      indexed_from_def user_ids_def)

lemma log_inv_new: "log_inv newDrawingState"
  by (auto simp: log_inv_def index_inv_def newDrawingState_def index_at_end_def derived_def
      indexed_from_def user_ids_def)

lemma index_ops_ids:
  "(case index_ops ops m u of None \<Rightarrow> [] | Some ids \<Rightarrow> ids) =
     (case m u of None \<Rightarrow> [] | Some ids \<Rightarrow> ids) @
     (if u = [] then []
      else map op_id
             (filter (\<lambda>operation. op_userId operation = Some u \<and> \<not> op_undone operation) ops))"
proof (induction ops arbitrary: m)
  case Nil
  then show ?case by simp
next
  case (Cons a ops)
  show ?case
    unfolding index_ops.simps Cons.IH
    by (auto split: option.splits)
qed

lemma index_inv_importState: "index_inv (importState state st)"
proof -
  have "indexed_from 0 (importState state st)"
    by (simp add: indexed_from_def importState_def Let_def user_ids_def index_ops_ids)
  moreover have "index_at_end (importState state st)"
    by (simp add: index_at_end_def importState_def Let_def)
  ultimately show ?thesis by (auto simp: index_inv_def)
qed

lemma index_inv_do_call:
  assumes "index_inv st" "do_call c st = Inr st'"
  shows "index_inv st'"
proof (cases c)
  case (AddOperation t_id t_stamp f)
  then obtain i where "addOperation t_id t_stamp f st = Inr (i, st')"
    using assms(2) by (cases "addOperation t_id t_stamp f st") auto
  then show ?thesis using assms(1) by (rule index_inv_addOperation [rotated])
next
  case (Undo now u)
  then obtain r where "undo now u st = Inr (r, st')"
    using assms(2) by (cases "undo now u st") auto
  then show ?thesis using assms(1) by (rule undo_inv(1) [rotated])
next
  case (Redo u)
  then obtain r where "redo u st = Inr (r, st')"
    using assms(2) by (cases "redo u st") auto
  then show ?thesis using assms(1) by (rule redo_inv(1) [rotated])
next
  case Clear
  then show ?thesis using assms(2) log_inv_clear [of st] by (auto simp: log_inv_def)
qed

lemma derived_do_call:
  assumes "index_inv st" "derived st" "do_call c st = Inr st'"
  shows "derived st'"
proof (cases c)
  case (AddOperation t_id t_stamp f)
  then obtain i where "addOperation t_id t_stamp f st = Inr (i, st')"
    using assms(3) by (cases "addOperation t_id t_stamp f st") auto
  then show ?thesis using assms(1,2) derived_addOperation by (auto simp: index_inv_def)
next
  case (Undo now u)
  then obtain r where "undo now u st = Inr (r, st')"
    using assms(3) by (cases "undo now u st") auto
  then show ?thesis using assms(1,2) undo_inv(2) by blast
next
  case (Redo u)
  then obtain r where "redo u st = Inr (r, st')"
    using assms(3) by (cases "redo u st") auto
  then show ?thesis using assms(1,2) redo_inv(2) by blast
next
  case Clear
  then show ?thesis using assms(3) log_inv_clear [of st] by (auto simp: log_inv_def)
qed

lemma log_inv_run_calls:
  "log_inv st \<Longrightarrow> run_calls cs st = Inr st' \<Longrightarrow> log_inv st'"
proof (induction cs arbitrary: st)
  case Nil
  then show ?case by simp
next
  case (Cons c cs)
  from Cons.prems(2) obtain st1 where 1: "do_call c st = Inr st1" and 2: "run_calls cs st1 = Inr st'"
    by (auto split: sum.splits)
  have "log_inv st1"
    using Cons.prems(1) index_inv_do_call [OF _ 1] derived_do_call [OF _ _ 1]
    by (auto simp: log_inv_def)
  then show ?case using Cons.IH 2 by blast
qed

lemma index_inv_run_log_calls:
  "index_inv st \<Longrightarrow> run_log_calls cs st = Inr st' \<Longrightarrow> index_inv st'"
proof (induction cs arbitrary: st)
  case Nil
  then show ?case by simp
next
  case (Cons c cs)
  from Cons.prems(2) obtain st1 where 1: "do_log_call c st = Inr st1"
    and 2: "run_log_calls cs st1 = Inr st'"
    by (auto split: sum.splits)
  have "index_inv st1"
  proof (cases c)
    case (Method m)
    then show ?thesis using Cons.prems(1) 1 index_inv_do_call by auto
  next
    case (ImportState state)
    then show ?thesis using 1 index_inv_importState by auto
  qed
  then show ?case using Cons.IH 2 by blast
qed

lemma index_inv_reached: "run_log_calls cs newDrawingState = Inr st \<Longrightarrow> index_inv st"
  using index_inv_run_log_calls [of newDrawingState cs st] log_inv_new
  by (simp add: log_inv_def)

lemma scan_back_None: "(\<And>j. j < n \<Longrightarrow> \<not> P (h ! j)) \<Longrightarrow> scan_back P h n = None"
  by (induction n) auto

lemma undo_redo_none:
  assumes act: "\<forall>operation \<in> set (operationHistory st). \<not> op_undone operation"
    and emp: "user_ids st U = []"
  shows "undo now U st = Inr (None, st)" and "redo U st = Inr (None, st)"
proof -
  have "scan_back (\<lambda>op. op_undone op \<and> op_userId op = Some U \<and> op_undoneBy op = Some U)
          (operationHistory st) (length (operationHistory st)) = None"
    using act by (intro scan_back_None) auto
  then show "redo U st = Inr (None, st)" by (simp add: redo_def)
  show "undo now U st = Inr (None, st)" using emp by (simp add: undo_def user_ids_def)
qed

lemma undo_redo_last:
  assumes inv: "index_inv st" and d: "derived st"
    and own: "\<forall>operation \<in> set (operationHistory st). op_userId operation = Some U"
    and act: "\<forall>operation \<in> set (operationHistory st). \<not> op_undone operation"
    and ne: "operationHistory st \<noteq> []"
    and idx: "user_ids st U \<noteq> []"
  shows "\<exists>st1 st2.
      undo now U st =
        Inr (Some ((last (operationHistory st))
                     \<lparr>op_undone := True, op_undoneBy := Some U, op_undoneAt := Some now\<rparr>), st1) \<and>
      operationHistory st1 =
        butlast (operationHistory st) @
          [(last (operationHistory st))
             \<lparr>op_undone := True, op_undoneBy := Some U, op_undoneAt := Some now\<rparr>] \<and>
      replay (butlast (operationHistory st)) [] = Inr (strokes st1) \<and>
      redo U st1 =
        Inr (Some ((last (operationHistory st))
                     \<lparr>op_undone := False, op_undoneBy := None, op_undoneAt := None\<rparr>), st2) \<and>
      operationHistory st2 =
        butlast (operationHistory st) @
          [(last (operationHistory st))
             \<lparr>op_undone := False, op_undoneBy := None, op_undoneAt := None\<rparr>] \<and>
      strokes st2 = strokes st"
proof -
  let ?h = "operationHistory st"
  from inv obtain k where k: "indexed_from k st" by (auto simp: index_inv_def)
  from ne obtain hs l where hsl: "?h = hs @ [l]" by (cases ?h rule: rev_cases) auto
  define m where "m = length hs"
  have n: "length ?h = Suc m" by (simp add: hsl m_def)
  have hm0: "?h ! m = l" by (simp add: hsl m_def)
  have bl: "butlast ?h = hs" and la: "last ?h = l" by (simp_all add: hsl)
  have lin: "l \<in> set ?h" by (simp add: hsl)
  have uids: "user_ids st U =
      map op_id (filter (\<lambda>operation. op_userId operation = Some U \<and> \<not> op_undone operation)
                   (drop k ?h))"
    and kn: "k \<le> length ?h"
    using k idx by (auto simp: indexed_from_def split: if_splits)
  have "k < length ?h" using idx uids kn by (cases "k = length ?h") auto
  then have "k \<le> m" using n by simp
  then have "drop k ?h = drop k hs @ [l]" by (simp add: hsl m_def)
  then have "l \<in> set (drop k ?h)" by simp
  then have idin: "op_id l \<in> set (user_ids st U)"
    using own act lin by (auto simp: uids)
  have nund: "\<not> op_undone l" using act lin by blast
  let ?P = "\<lambda>op. op_id op \<in> set (user_ids st U) \<and> \<not> op_undone op"
  have sb: "scan_back ?P ?h (length ?h) = Some m" using idin nund by (simp add: n hm0)
  let ?o1 = "l\<lparr>op_undone := True, op_undoneBy := Some U, op_undoneAt := Some now\<rparr>"
  have h1: "?h[m := ?o1] = hs @ [?o1]" by (simp add: hsl m_def)
  from d have "replay (hs @ [l]) [] = Inr (strokes st)"
    by (simp add: derived_def hsl)
  then obtain ssm where pm: "replay hs [] = Inr ssm"
    and am: "applyOperation l ssm = Inr (strokes st)"
    using nund by (auto simp: replay_append split: sum.splits)
  have r1: "replay (hs @ [?o1]) [] = Inr ssm"
    by (simp add: replay_append pm)
  define st1 where
    "st1 = st\<lparr>operationHistory := hs @ [?o1], strokes := ssm, userOperations := Map.empty\<rparr>"
  have u: "undo now U st = Inr (Some ?o1, st1)"
    using idx sb r1 unfolding st1_def
    by (simp add: undo_def Let_def rebuildState_def user_ids_def hm0 h1)
  let ?Q = "\<lambda>op. op_undone op \<and> op_userId op = Some U \<and> op_undoneBy op = Some U"
  have h1m: "(hs @ [?o1]) ! m = ?o1" by (simp add: m_def)
  have "?Q ?o1" using own lin by simp
  then have sq: "scan_back ?Q (hs @ [?o1]) (length (hs @ [?o1])) = Some m"
    using h1m by (simp add: m_def)
  let ?o2 = "l\<lparr>op_undone := False, op_undoneBy := None, op_undoneAt := None\<rparr>"
  have o2: "?o1\<lparr>op_undone := False, op_undoneBy := None, op_undoneAt := None\<rparr> = ?o2" by simp
  have h2: "(hs @ [?o1])[m := ?o2] = hs @ [?o2]" by (simp add: m_def)
  have "applyOperation ?o2 ssm = Inr (strokes st)"
    using am by (simp add: applyOperation_markers)
  then have r2: "replay (hs @ [?o2]) [] = Inr (strokes st)"
    by (simp add: replay_append pm)
  define st2 where
    "st2 = st1\<lparr>operationHistory := hs @ [?o2], strokes := strokes st, userOperations := Map.empty\<rparr>"
  have rd: "redo U st1 = Inr (Some ?o2, st2)"
    using sq r2 unfolding st1_def st2_def
    by (simp add: redo_def Let_def rebuildState_def h1m o2 h2)
  have "operationHistory st1 = hs @ [?o1]" "strokes st1 = ssm"
    "operationHistory st2 = hs @ [?o2]" "strokes st2 = strokes st"
    by (simp_all add: st1_def st2_def)
  then show ?thesis using u rd pm unfolding bl la by auto
qed

section \<open>Rebuilding the derived state\<close>

text \<open>
  C6. \<^verbatim>\<open>rebuildState\<close> is idempotent: calling it twice in a row gives the same result
  as calling it once (the same derived strokes, and indeed the same state; when the replay
  throws, it throws both times). The strokes it leaves are the replay of the log from the
  empty stroke list, whatever the strokes were before: they depend on the log only.
\<close>

theorem rebuildState_idempotent:
  "(case rebuildState st of Inl e \<Rightarrow> Inl e | Inr st' \<Rightarrow> rebuildState st') = rebuildState st \<and>
   map_sum id getState (rebuildState st) = replay (getHistory st) [] \<and>
   map_sum id getHistory (rebuildState st) = map_sum id (\<lambda>ss. getHistory st) (replay (getHistory st) [])"
  by (auto simp: rebuildState_def getState_def getHistory_def split: sum.splits)

section \<open>Undo and redo\<close>

text \<open>
  C3, as amended. Take a log reached from \<^verbatim>\<open>new DrawingState()\<close> by the class's
  mutators (\<^verbatim>\<open>addOperation\<close>, \<^verbatim>\<open>undo\<close>, \<^verbatim>\<open>redo\<close>, \<^verbatim>\<open>clear\<close>,
  \<^verbatim>\<open>importState\<close>) whose strokes are the replay of its entries, in which every entry
  belongs to user \<open>U\<close> and none is flagged undone, with at least one entry. Then
  \<^verbatim>\<open>undo(U)\<close> followed by \<^verbatim>\<open>redo(U)\<close> both return, and \<^verbatim>\<open>getState()\<close>
  afterwards is the stroke list it was before the undo. When the user index holds an id
  for \<open>U\<close>, the undo flags and returns the last entry, leaving the strokes of the entries
  before it, and the redo clears the flags of that entry and returns it; when the index
  holds none, both calls return \<^verbatim>\<open>null\<close> and change nothing.
\<close>

theorem undo_redo_inverse:
  assumes "run_log_calls cs newDrawingState = Inr st"
    and "replay (getHistory st) [] = Inr (getState st)"
    and "\<forall>operation \<in> set (getHistory st). op_userId operation = Some U"
    and "\<forall>operation \<in> set (getHistory st). \<not> op_undone operation"
    and "length (getHistory st) \<ge> 1"
  shows "\<exists>r1 st1 r2 st2.
           undo now U st = Inr (r1, st1) \<and> redo U st1 = Inr (r2, st2) \<and>
           getState st2 = getState st \<and>
           (if user_ids st U = [] then r1 = None \<and> r2 = None \<and> st1 = st \<and> st2 = st
            else
              r1 = Some ((last (getHistory st))
                           \<lparr>op_undone := True, op_undoneBy := Some U, op_undoneAt := Some now\<rparr>) \<and>
              getHistory st1 =
                butlast (getHistory st) @
                  [(last (getHistory st))
                     \<lparr>op_undone := True, op_undoneBy := Some U, op_undoneAt := Some now\<rparr>] \<and>
              replay (butlast (getHistory st)) [] = Inr (getState st1) \<and>
              r2 = Some ((last (getHistory st))
                           \<lparr>op_undone := False, op_undoneBy := None, op_undoneAt := None\<rparr>) \<and>
              getHistory st2 =
                butlast (getHistory st) @
                  [(last (getHistory st))
                     \<lparr>op_undone := False, op_undoneBy := None, op_undoneAt := None\<rparr>])"
proof (cases "user_ids st U = []")
  case True
  have act: "\<forall>operation \<in> set (operationHistory st). \<not> op_undone operation"
    using assms(4) by (simp add: getHistory_def)
  show ?thesis
    using undo_redo_none(1) [OF act True, of now] undo_redo_none(2) [OF act True] True by simp
next
  case False
  have inv: "index_inv st" using assms(1) by (rule index_inv_reached)
  have d: "derived st" using assms(2) by (simp add: derived_def getHistory_def getState_def)
  have own: "\<forall>operation \<in> set (operationHistory st). op_userId operation = Some U"
    and act: "\<forall>operation \<in> set (operationHistory st). \<not> op_undone operation"
    and ne: "operationHistory st \<noteq> []"
    using assms(3,4,5) by (auto simp: getHistory_def)
  from undo_redo_last [OF inv d own act ne False, of now]
  show ?thesis using False by (auto simp: getHistory_def getState_def)
qed

theorem undo_redo_inverse_witness:
  "\<exists>st undone st1 redone st2.
     run_log_calls
       [ImportState
          \<lparr>sv_strokes = Some [ex_stroke ''s1'' ''brush'' [\<lparr>point_x = 0, point_y = 0\<rparr>]],
           sv_operationHistory = Some [with_id (ex_draw ''u'' ''s1'' 0 0) (OpId 1 1) 1],
           sv_timestamp = Some 1\<rparr>,
        Method (AddOperation 2 2 (ex_draw ''u'' ''s1'' 5 5))] newDrawingState = Inr st \<and>
     getState st =
       [ex_stroke ''s1'' ''brush'' [\<lparr>point_x = 0, point_y = 0\<rparr>, \<lparr>point_x = 5, point_y = 5\<rparr>]] \<and>
     undo 3 ''u'' st = Inr (Some undone, st1) \<and>
     op_id undone = OpId 2 1 \<and>
     getState st1 = [ex_stroke ''s1'' ''brush'' [\<lparr>point_x = 0, point_y = 0\<rparr>]] \<and>
     redo ''u'' st1 = Inr (Some redone, st2) \<and>
     op_id redone = OpId 2 1 \<and>
     getState st2 = getState st"
proof -
  let ?o1 = "with_id (ex_draw ''u'' ''s1'' 0 0) (OpId 1 1) 1"
  let ?o2 = "with_id (ex_draw ''u'' ''s1'' 5 5) (OpId 2 (Suc 0)) 2"
  obtain st where run:
      "run_log_calls
         [ImportState
            \<lparr>sv_strokes = Some [ex_stroke ''s1'' ''brush'' [\<lparr>point_x = 0, point_y = 0\<rparr>]],
             sv_operationHistory = Some [with_id (ex_draw ''u'' ''s1'' 0 0) (OpId 1 1) 1],
             sv_timestamp = Some 1\<rparr>,
          Method (AddOperation 2 2 (ex_draw ''u'' ''s1'' 5 5))] newDrawingState = Inr st"
    and h: "getHistory st = [?o1, ?o2]"
    and g: "getState st =
       [ex_stroke ''s1'' ''brush'' [\<lparr>point_x = 0, point_y = 0\<rparr>, \<lparr>point_x = 5, point_y = 5\<rparr>]]"
    and ix: "user_ids st ''u'' = [OpId 1 1, OpId 2 (Suc 0)]"
    by (simp add: importState_def addOperation_def applyOperation_def newDrawingState_def
        ex_draw_def ex_stroke_def with_id_def Let_def getHistory_def getState_def user_ids_def)
  have rp: "replay (getHistory st) [] = Inr (getState st)"
    by (simp add: h g applyOperation_def ex_draw_def ex_stroke_def with_id_def)
  have own: "\<forall>operation \<in> set (getHistory st). op_userId operation = Some ''u''"
    by (simp add: h ex_draw_def)
  have act: "\<forall>operation \<in> set (getHistory st). \<not> op_undone operation"
    by (simp add: h)
  have len: "length (getHistory st) \<ge> 1" by (simp add: h)
  from undo_redo_inverse [OF run rp own act len, of 3] obtain r1 st1 r2 st2 where
    u: "undo 3 ''u'' st = Inr (r1, st1)" and r: "redo ''u'' st1 = Inr (r2, st2)"
    and e: "getState st2 = getState st"
    and r1: "r1 = Some (?o2\<lparr>op_undone := True, op_undoneBy := Some ''u'', op_undoneAt := Some 3\<rparr>)"
    and p1: "replay [?o1] [] = Inr (getState st1)"
    and r2: "r2 = Some (?o2\<lparr>op_undone := False, op_undoneBy := None, op_undoneAt := None\<rparr>)"
    by (auto simp: ix h)
  have g1: "getState st1 = [ex_stroke ''s1'' ''brush'' [\<lparr>point_x = 0, point_y = 0\<rparr>]]"
    using p1 by (simp add: applyOperation_def ex_draw_def ex_stroke_def with_id_def)
  show ?thesis
    using run g u r e g1 unfolding r1 r2 by (intro exI conjI) (assumption | simp)+
qed

text \<open>
  C3 as first stated speaks of every log. \<^verbatim>\<open>importState\<close> takes the strokes of the
  snapshot as they are, whatever its history says. After loading a snapshot with no
  strokes and one entry of user \<open>u\<close>, not flagged undone, \<^verbatim>\<open>getState()\<close> is empty;
  \<^verbatim>\<open>undo(u)\<close> and \<^verbatim>\<open>redo(u)\<close> both find the entry, and the rebuild of the redo
  leaves one stroke.
\<close>

theorem undo_redo_loaded_counterexample:
  "\<exists>st undone st1 redone st2.
     run_log_calls
       [ImportState
          \<lparr>sv_strokes = Some [],
           sv_operationHistory = Some [with_id (ex_draw ''u'' ''s1'' 0 0) (OpId 1 1) 1],
           sv_timestamp = Some 1\<rparr>] newDrawingState = Inr st \<and>
     length (getHistory st) = 1 \<and>
     op_userId (getHistory st ! 0) = Some ''u'' \<and>
     op_undone (getHistory st ! 0) = False \<and>
     undo 2 ''u'' st = Inr (Some undone, st1) \<and>
     redo ''u'' st1 = Inr (Some redone, st2) \<and>
     getState st = [] \<and>
     getState st2 = [ex_stroke ''s1'' ''brush'' [\<lparr>point_x = 0, point_y = 0\<rparr>]] \<and>
     set (getState st2) \<noteq> set (getState st)"
  by (simp add: importState_def newDrawingState_def ex_draw_def ex_stroke_def with_id_def
      Let_def getHistory_def getState_def undo_def redo_def rebuildState_def
      applyOperation_def)



subsection \<open>Undo of one point of a stroke\<close>

lemma find_fresh: "(\<forall>s \<in> set ss. s_id s \<noteq> sid) \<Longrightarrow> find (\<lambda>s. s_id s = sid) ss = None"
  by (induction ss) auto

lemma find_append_fresh:
  "(\<forall>s \<in> set ss. s_id s \<noteq> sid) \<Longrightarrow> s_id t = sid \<Longrightarrow>
     find (\<lambda>s. s_id s = sid) (ss @ [t]) = Some t"
  by (induction ss) auto

lemma push_point_append_fresh:
  "(\<forall>s \<in> set ss. s_id s \<noteq> sid) \<Longrightarrow> s_id t = sid \<Longrightarrow>
     push_point sid p (ss @ [t]) = ss @ [t\<lparr>s_points := s_points t @ [p]\<rparr>]"
  by (induction ss) auto

lemma draw_new_stroke:
  assumes "\<forall>s \<in> set ss. s_id s \<noteq> op_strokeId operation"
    and "op_type operation = ''draw''" "op_point operation = Some p"
  shows "applyOperation operation ss =
     Inr (ss @ [\<lparr>s_id = op_strokeId operation, s_userId = op_userId operation,
                  s_tool = op_tool operation, s_color = op_color operation,
                  s_lineWidth = op_lineWidth operation, s_points = [p]\<rparr>])"
  using assms by (simp add: applyOperation_def find_fresh push_point_append_fresh)

lemma draw_last_stroke:
  assumes "\<forall>s \<in> set ss. s_id s \<noteq> op_strokeId operation"
    and "s_id t = op_strokeId operation"
    and "op_type operation = ''draw''" "op_point operation = Some p"
  shows "applyOperation operation (ss @ [t]) = Inr (ss @ [t\<lparr>s_points := s_points t @ [p]\<rparr>])"
  using assms by (simp add: applyOperation_def find_append_fresh push_point_append_fresh)

lemma addOperation_ok:
  assumes "index_at_end st"
    and "applyOperation (with_id f (OpId t_id (Suc (operationIdCounter st))) t_stamp) (strokes st) = Inr ss"
    and "op_userId f = Some U" "U \<noteq> []"
  shows "addOperation t_id t_stamp f st =
          Inr (OpId t_id (Suc (operationIdCounter st)),
               st\<lparr>operationHistory :=
                     operationHistory st @ [with_id f (OpId t_id (Suc (operationIdCounter st))) t_stamp],
                  currentHistoryIndex := currentHistoryIndex st + 1,
                  strokes := ss,
                  operationIdCounter := Suc (operationIdCounter st),
                  userOperations :=
                    (userOperations st)(U \<mapsto> user_ids st U @ [OpId t_id (Suc (operationIdCounter st))])\<rparr>)"
  using assms by (simp add: addOperation_at_end)



text \<open>When the three \<^verbatim>\<open>draw\<close> operations of a new stroke are the last calls before the
  undo, the user index holds their ids: the undo flags the third and the stroke keeps its
  first two points.\<close>

lemma undo_removes_last_point:
  assumes e0: "index_at_end st0" and d0: "derived st0"
    and fresh: "\<forall>s \<in> set (strokes st0). s_id s \<noteq> Some sid"
    and U: "U \<noteq> []"
    and f1: "op_type f1 = ''draw''" "op_userId f1 = Some U" "op_strokeId f1 = Some sid"
            "op_point f1 = Some p1"
    and f2: "op_type f2 = ''draw''" "op_userId f2 = Some U" "op_strokeId f2 = Some sid"
            "op_point f2 = Some p2"
    and f3: "op_type f3 = ''draw''" "op_userId f3 = Some U" "op_strokeId f3 = Some sid"
            "op_point f3 = Some p3"
  shows "\<exists>i1 st1 i2 st2 i3 st3 undone st4.
           addOperation a1 b1 f1 st0 = Inr (i1, st1) \<and>
           addOperation a2 b2 f2 st1 = Inr (i2, st2) \<and>
           addOperation a3 b3 f3 st2 = Inr (i3, st3) \<and>
           getState st3 =
             getState st0 @
               [\<lparr>s_id = Some sid, s_userId = Some U, s_tool = op_tool f1, s_color = op_color f1,
                 s_lineWidth = op_lineWidth f1, s_points = [p1, p2, p3]\<rparr>] \<and>
           undo now U st3 = Inr (Some undone, st4) \<and>
           op_id undone = i3 \<and> op_undone undone \<and>
           getState st4 =
             getState st0 @
               [\<lparr>s_id = Some sid, s_userId = Some U, s_tool = op_tool f1, s_color = op_color f1,
                 s_lineWidth = op_lineWidth f1, s_points = [p1, p2]\<rparr>]"
proof -
  let ?c = "operationIdCounter st0"
  let ?o1 = "with_id f1 (OpId a1 (Suc ?c)) b1"
  let ?o2 = "with_id f2 (OpId a2 (Suc (Suc ?c))) b2"
  let ?o3 = "with_id f3 (OpId a3 (Suc (Suc (Suc ?c)))) b3"
  let ?stk = "\<lambda>ps. \<lparr>s_id = Some sid, s_userId = Some U, s_tool = op_tool f1,
                     s_color = op_color f1, s_lineWidth = op_lineWidth f1, s_points = ps\<rparr>"
  let ?ss = "strokes st0"
  have ap1: "applyOperation ?o1 ?ss = Inr (?ss @ [?stk [p1]])"
    using draw_new_stroke [of ?ss ?o1 p1] fresh f1 by simp
  have ap2: "applyOperation ?o2 (?ss @ [?stk [p1]]) = Inr (?ss @ [?stk [p1, p2]])"
    using draw_last_stroke [of ?ss ?o2 "?stk [p1]" p2] fresh f2 by simp
  have ap3: "applyOperation ?o3 (?ss @ [?stk [p1, p2]]) = Inr (?ss @ [?stk [p1, p2, p3]])"
    using draw_last_stroke [of ?ss ?o3 "?stk [p1, p2]" p3] fresh f3 by simp
  define st1 where "st1 = st0\<lparr>operationHistory := operationHistory st0 @ [?o1],
                  currentHistoryIndex := currentHistoryIndex st0 + 1,
                  strokes := ?ss @ [?stk [p1]],
                  operationIdCounter := Suc ?c,
                  userOperations := (userOperations st0)(U \<mapsto> user_ids st0 U @ [OpId a1 (Suc ?c)])\<rparr>"
  have a1: "addOperation a1 b1 f1 st0 = Inr (OpId a1 (Suc ?c), st1)"
    unfolding st1_def using addOperation_ok [OF e0 ap1 f1(2) U] .
  have e1: "index_at_end st1" using e0 by (simp add: st1_def index_at_end_def)
  define st2 where "st2 = st1\<lparr>operationHistory := operationHistory st1 @ [?o2],
                  currentHistoryIndex := currentHistoryIndex st1 + 1,
                  strokes := ?ss @ [?stk [p1, p2]],
                  operationIdCounter := Suc (Suc ?c),
                  userOperations := (userOperations st1)(U \<mapsto> user_ids st1 U @ [OpId a2 (Suc (Suc ?c))])\<rparr>"
  have c1: "operationIdCounter st1 = Suc ?c" and s1: "strokes st1 = ?ss @ [?stk [p1]]"
    by (simp_all add: st1_def)
  have a2: "addOperation a2 b2 f2 st1 = Inr (OpId a2 (Suc (Suc ?c)), st2)"
    unfolding st2_def using addOperation_ok [OF e1, where t_id = a2 and f = f2 and t_stamp = b2
        and ss = "?ss @ [?stk [p1, p2]]" and U = U] ap2 f2(2) U
    by (simp add: c1 s1)
  have e2: "index_at_end st2" using e1 by (simp add: st2_def index_at_end_def)
  define st3 where "st3 = st2\<lparr>operationHistory := operationHistory st2 @ [?o3],
                  currentHistoryIndex := currentHistoryIndex st2 + 1,
                  strokes := ?ss @ [?stk [p1, p2, p3]],
                  operationIdCounter := Suc (Suc (Suc ?c)),
                  userOperations := (userOperations st2)(U \<mapsto> user_ids st2 U @ [OpId a3 (Suc (Suc (Suc ?c)))])\<rparr>"
  have c2: "operationIdCounter st2 = Suc (Suc ?c)" and s2: "strokes st2 = ?ss @ [?stk [p1, p2]]"
    by (simp_all add: st2_def)
  have a3: "addOperation a3 b3 f3 st2 = Inr (OpId a3 (Suc (Suc (Suc ?c))), st3)"
    unfolding st3_def using addOperation_ok [OF e2, where t_id = a3 and f = f3 and t_stamp = b3
        and ss = "?ss @ [?stk [p1, p2, p3]]" and U = U] ap3 f3(2) U
    by (simp add: c2 s2)
  have h3: "operationHistory st3 = operationHistory st0 @ [?o1, ?o2, ?o3]"
    by (simp add: st3_def st2_def st1_def)
  have u3: "user_ids st3 U = user_ids st2 U @ [OpId a3 (Suc (Suc (Suc ?c)))]"
    by (simp add: st3_def user_ids_def)
  define m where "m = length (operationHistory st0) + 2"
  have len3: "length (operationHistory st3) = Suc m" by (simp add: h3 m_def)
  have nth3: "operationHistory st3 ! m = ?o3"
    by (simp add: h3 m_def nth_append)
  let ?P = "\<lambda>op. op_id op \<in> set (user_ids st3 U) \<and> \<not> op_undone op"
  have sb: "scan_back ?P (operationHistory st3) (length (operationHistory st3)) = Some m"
    unfolding len3 by (simp add: nth3 u3)
  let ?und = "?o3\<lparr>op_undone := True, op_undoneBy := Some U, op_undoneAt := Some now\<rparr>"
  have upd: "(operationHistory st3)[m := ?und] = operationHistory st0 @ [?o1, ?o2, ?und]"
    by (simp add: h3 m_def list_update_append)
  have rp: "replay (operationHistory st0 @ [?o1, ?o2, ?und]) [] = Inr (?ss @ [?stk [p1, p2]])"
    using d0 ap1 ap2 by (simp add: replay_append derived_def)
  define st4 where "st4 = st3\<lparr>operationHistory := operationHistory st0 @ [?o1, ?o2, ?und],
       strokes := ?ss @ [?stk [p1, p2]], userOperations := Map.empty\<rparr>"
  have ne: "user_ids st3 U \<noteq> []" by (simp add: u3)
  have un: "undo now U st3 = Inr (Some ?und, st4)"
    using sb ne rp unfolding undo_def st4_def
    by (simp add: Let_def nth3 upd rebuildState_def user_ids_def)
  have g3: "getState st3 = getState st0 @ [?stk [p1, p2, p3]]"
    by (simp add: getState_def st3_def)
  have g4: "getState st4 = getState st0 @ [?stk [p1, p2]]"
    by (simp add: getState_def st4_def)
  have "op_id ?und = OpId a3 (Suc (Suc (Suc ?c)))" "op_undone ?und" by simp_all
  with a1 a2 a3 g3 un g4 show ?thesis by blast
qed

text \<open>
  C4. The claim: when the three most recent operations of user \<open>U\<close> are \<^verbatim>\<open>draw\<close>
  operations of one stroke, none undone, one \<^verbatim>\<open>undo(U)\<close> removes the last point of
  that stroke and leaves the stroke with its first two points. The code at a concrete
  input: user \<open>u\<close> draws three points of stroke \<open>s1\<close>, user \<open>v\<close> draws one point and
  undoes it. The rebuild of that undo has emptied the user index, so \<^verbatim>\<open>undo(u)\<close>
  returns \<^verbatim>\<open>null\<close> and the stroke keeps its three points, although the three entries of
  \<open>u\<close> are in the log and not flagged undone.
\<close>

theorem undo_after_other_users_undo:
  "\<exists>i1 st1 i2 st2 i3 st3 i4 st4 undone st5.
     addOperation 1 1 (ex_draw ''u'' ''s1'' 0 0) newDrawingState = Inr (i1, st1) \<and>
     addOperation 2 2 (ex_draw ''u'' ''s1'' 5 5) st1 = Inr (i2, st2) \<and>
     addOperation 3 3 (ex_draw ''u'' ''s1'' 9 9) st2 = Inr (i3, st3) \<and>
     addOperation 4 4 (ex_draw ''v'' ''s2'' 1 1) st3 = Inr (i4, st4) \<and>
     undo 5 ''v'' st4 = Inr (Some undone, st5) \<and> op_id undone = i4 \<and>
     map op_id (getHistory st5) = [i1, i2, i3, i4] \<and>
     map op_userId (getHistory st5) = [Some ''u'', Some ''u'', Some ''u'', Some ''v''] \<and>
     map op_undone (getHistory st5) = [False, False, False, True] \<and>
     getState st5 =
       [ex_stroke ''s1'' ''brush''
          [\<lparr>point_x = 0, point_y = 0\<rparr>, \<lparr>point_x = 5, point_y = 5\<rparr>, \<lparr>point_x = 9, point_y = 9\<rparr>]] \<and>
     undo 6 ''u'' st5 = Inr (None, st5)"
  by (simp add: addOperation_def applyOperation_def newDrawingState_def ex_draw_def
      ex_stroke_def with_id_def Let_def undo_def rebuildState_def getHistory_def getState_def)

section \<open>Folding an erase operation\<close>

lemma filter_points_keep:
  "filter_points (keep_point (Some e) r) ps = Inr (filter (\<lambda>p. js_gt (distance p e) (Num r)) ps)"
  by (induction ps) (simp_all add: keep_point_def)

lemma map_strokes_total:
  "(\<And>s. f s = Inr (g s)) \<Longrightarrow> map_strokes f ss = Inr (map g ss)"
  by (induction ss) simp_all

lemma erase_stroke_point: "erase_stroke (Some e) r s = Inr (erased e r s)"
  by (simp add: erase_stroke_def filter_points_keep erased_def)

lemma erased_chars:
  "map the (filter (\<lambda>r. r \<noteq> None) (map (erased e r) ss)) =
     map (\<lambda>s. if s_tool s = Some ''eraser'' then s
               else s\<lparr>s_points := filter (\<lambda>p. js_gt (distance p e) (Num r)) (s_points s)\<rparr>)
       (filter (\<lambda>s. s_tool s = Some ''eraser'' \<or> (\<exists>p \<in> set (s_points s). js_gt (distance p e) (Num r))) ss)"
  by (induction ss) (auto simp: erased_def filter_empty_conv)

lemma applyOperation_erase:
  assumes "op_type operation = ''erase''" "op_point operation = Some e"
  shows "applyOperation operation ss =
     Inr (map (\<lambda>s. if s_tool s = Some ''eraser'' then s
               else s\<lparr>s_points :=
                      filter (\<lambda>p. js_gt (distance p e) (Num (num_or (op_radius operation) 20))) (s_points s)\<rparr>)
       (filter (\<lambda>s. s_tool s = Some ''eraser'' \<or>
                  (\<exists>p \<in> set (s_points s). js_gt (distance p e) (Num (num_or (op_radius operation) 20)))) ss))"
proof -
  have "applyOperation operation ss =
      Inr (map the (filter (\<lambda>r. r \<noteq> None)
             (map (erased e (num_or (op_radius operation) 20)) ss)))"
    using assms
    by (simp add: applyOperation_def map_strokes_total [OF erase_stroke_point])
  then show ?thesis by (simp only: erased_chars)
qed

lemma addOperation_erase:
  assumes "op_type f = ''erase''" and "op_point f = Some e"
  shows "\<exists>st'.
     addOperation t_id t_stamp f st = Inr (OpId t_id (Suc (operationIdCounter st)), st') \<and>
     last (getHistory st') = with_id f (OpId t_id (Suc (operationIdCounter st))) t_stamp \<and>
     getState st' =
       map (\<lambda>s. if s_tool s = Some ''eraser'' then s
                 else s\<lparr>s_points :=
                        filter (\<lambda>p. js_gt (distance p e) (Num (num_or (op_radius f) 20))) (s_points s)\<rparr>)
         (filter (\<lambda>s. s_tool s = Some ''eraser'' \<or>
                    (\<exists>p \<in> set (s_points s). js_gt (distance p e) (Num (num_or (op_radius f) 20))))
            (getState st))"
  using assms
  by (simp add: addOperation_def Let_def applyOperation_erase [where e = e] getState_def getHistory_def)

lemma rounded_1e16: "rounded 10000000000000000 = Num 10000000000000000"
  using rounded_small [of 10000000000000000] by (simp add: fl_1e16)

lemma rounded_tie: "rounded 10000000000000001 = Num 10000000000000000"
  using rounded_small [of 10000000000000001] by (simp add: fl_tie)

text \<open>
  C5, as amended. Logging an \<^verbatim>\<open>erase\<close> operation with erase point \<open>e\<close> always
  returns; the operation is the last entry of the log afterwards. Let \<open>r\<close> be the
  operation's radius, or 20 when the radius is absent or 0. The derived strokes afterwards
  are the former ones in order, where a stroke whose tool is \<^verbatim>\<open>eraser\<close> is unchanged,
  every other stroke keeps exactly the points whose distance from \<open>e\<close>, as the code
  computes it in binary64 arithmetic, is greater than \<open>r\<close> (the others are removed), and
  every other stroke left without a point is gone.
\<close>

theorem erase_fold:
  assumes "op_type f = ''erase''" and "op_point f = Some e"
    and "r = (case op_radius f of None \<Rightarrow> 20 | Some v \<Rightarrow> if v = 0 then 20 else v)"
  shows "\<exists>st'.
     addOperation t_id t_stamp f st = Inr (OpId t_id (Suc (operationIdCounter st)), st') \<and>
     last (getHistory st') = with_id f (OpId t_id (Suc (operationIdCounter st))) t_stamp \<and>
     getState st' =
       map (\<lambda>s. if s_tool s = Some ''eraser'' then s
                 else s\<lparr>s_points := filter (\<lambda>p. js_gt (distance p e) (Num r)) (s_points s)\<rparr>)
         (filter (\<lambda>s. s_tool s = Some ''eraser'' \<or>
                    (\<exists>p \<in> set (s_points s). js_gt (distance p e) (Num r)))
            (getState st))"
proof -
  have r: "num_or (op_radius f) 20 = r" using assms(3) by (simp add: num_or_def)
  show ?thesis using addOperation_erase [OF assms(1,2), of t_id t_stamp st] unfolding r .
qed

lemma ex_distances:
  "distance \<lparr>point_x = 3, point_y = 0\<rparr> \<lparr>point_x = 0, point_y = 0\<rparr> = Num 3"
  "distance \<lparr>point_x = 6, point_y = 8\<rparr> \<lparr>point_x = 0, point_y = 0\<rparr> = Num 10"
  "distance \<lparr>point_x = 30, point_y = 0\<rparr> \<lparr>point_x = 0, point_y = 0\<rparr> = Num 30"
  "distance \<lparr>point_x = 3, point_y = 4\<rparr> \<lparr>point_x = 0, point_y = 0\<rparr> = Num 5"
  "distance \<lparr>point_x = 0, point_y = 0\<rparr> \<lparr>point_x = 0, point_y = 0\<rparr> = Num 0"
  by (simp_all add: distance_def sqrt_9 sqrt_100 sqrt_900 sqrt_25)

theorem erase_fold_witness:
  "(\<exists>st'.
      addOperation 7 7 (ex_erase ''u'' 0 0 (Some 5)) ex_canvas = Inr (OpId 7 1, st') \<and>
      last (getHistory st') = with_id (ex_erase ''u'' 0 0 (Some 5)) (OpId 7 1) 7 \<and>
      getState st' =
        [ex_stroke ''a'' ''brush'' [\<lparr>point_x = 6, point_y = 8\<rparr>, \<lparr>point_x = 30, point_y = 0\<rparr>],
         ex_stroke ''b'' ''eraser'' [\<lparr>point_x = 0, point_y = 0\<rparr>]]) \<and>
   (\<exists>st'.
      addOperation 7 7 (ex_erase ''u'' 0 0 (Some 2)) ex_canvas = Inr (OpId 7 1, st') \<and>
      getState st' = getState ex_canvas) \<and>
   (\<exists>st'.
      addOperation 7 7 (ex_erase ''u'' 0 0 None) ex_canvas = Inr (OpId 7 1, st') \<and>
      getState st' =
        [ex_stroke ''a'' ''brush'' [\<lparr>point_x = 30, point_y = 0\<rparr>],
         ex_stroke ''b'' ''eraser'' [\<lparr>point_x = 0, point_y = 0\<rparr>]])"
proof -
  have t: "op_type (ex_erase ''u'' 0 0 v) = ''erase''"
    and p: "op_point (ex_erase ''u'' 0 0 v) = Some \<lparr>point_x = 0, point_y = 0\<rparr>" for v
    by (simp_all add: ex_erase_def)
  have r5: "(5::real) = (case op_radius (ex_erase ''u'' 0 0 (Some 5)) of
                None \<Rightarrow> 20 | Some v \<Rightarrow> if v = 0 then 20 else v)"
    and r2: "(2::real) = (case op_radius (ex_erase ''u'' 0 0 (Some 2)) of
                None \<Rightarrow> 20 | Some v \<Rightarrow> if v = 0 then 20 else v)"
    and r20: "(20::real) = (case op_radius (ex_erase ''u'' 0 0 None) of
                None \<Rightarrow> 20 | Some v \<Rightarrow> if v = 0 then 20 else v)"
    by (simp_all add: ex_erase_def)
  have c: "operationIdCounter ex_canvas = 0"
    and g: "getState ex_canvas =
        [ex_stroke ''a'' ''brush''
           [\<lparr>point_x = 3, point_y = 0\<rparr>, \<lparr>point_x = 6, point_y = 8\<rparr>, \<lparr>point_x = 30, point_y = 0\<rparr>],
         ex_stroke ''b'' ''eraser'' [\<lparr>point_x = 0, point_y = 0\<rparr>],
         ex_stroke ''c'' ''brush'' [\<lparr>point_x = 3, point_y = 4\<rparr>]]"
    by (simp_all add: ex_canvas_def getState_def newDrawingState_def)
  have A: "\<exists>st'.
      addOperation 7 7 (ex_erase ''u'' 0 0 (Some 5)) ex_canvas = Inr (OpId 7 1, st') \<and>
      last (getHistory st') = with_id (ex_erase ''u'' 0 0 (Some 5)) (OpId 7 1) 7 \<and>
      getState st' =
        [ex_stroke ''a'' ''brush'' [\<lparr>point_x = 6, point_y = 8\<rparr>, \<lparr>point_x = 30, point_y = 0\<rparr>],
         ex_stroke ''b'' ''eraser'' [\<lparr>point_x = 0, point_y = 0\<rparr>]]"
  proof -
    from erase_fold [OF t p r5, of 7 7 ex_canvas] obtain st' where
      "addOperation 7 7 (ex_erase ''u'' 0 0 (Some 5)) ex_canvas = Inr (OpId 7 (Suc 0), st')"
      "last (getHistory st') = with_id (ex_erase ''u'' 0 0 (Some 5)) (OpId 7 (Suc 0)) 7"
      "getState st' =
         map (\<lambda>s. if s_tool s = Some ''eraser'' then s
               else s\<lparr>s_points :=
                      filter (\<lambda>p. js_gt (distance p \<lparr>point_x = 0, point_y = 0\<rparr>) (Num 5))
                        (s_points s)\<rparr>)
           (filter (\<lambda>s. s_tool s = Some ''eraser'' \<or>
                      (\<exists>p \<in> set (s_points s).
                          js_gt (distance p \<lparr>point_x = 0, point_y = 0\<rparr>) (Num 5)))
              (getState ex_canvas))"
      unfolding c by blast
    then show ?thesis by (simp add: g ex_stroke_def ex_distances)
  qed
  have B: "\<exists>st'.
      addOperation 7 7 (ex_erase ''u'' 0 0 (Some 2)) ex_canvas = Inr (OpId 7 1, st') \<and>
      getState st' = getState ex_canvas"
  proof -
    from erase_fold [OF t p r2, of 7 7 ex_canvas] obtain st' where
      "addOperation 7 7 (ex_erase ''u'' 0 0 (Some 2)) ex_canvas = Inr (OpId 7 (Suc 0), st')"
      "last (getHistory st') = with_id (ex_erase ''u'' 0 0 (Some 2)) (OpId 7 (Suc 0)) 7"
      "getState st' =
         map (\<lambda>s. if s_tool s = Some ''eraser'' then s
               else s\<lparr>s_points :=
                      filter (\<lambda>p. js_gt (distance p \<lparr>point_x = 0, point_y = 0\<rparr>) (Num 2))
                        (s_points s)\<rparr>)
           (filter (\<lambda>s. s_tool s = Some ''eraser'' \<or>
                      (\<exists>p \<in> set (s_points s).
                          js_gt (distance p \<lparr>point_x = 0, point_y = 0\<rparr>) (Num 2)))
              (getState ex_canvas))"
      unfolding c by blast
    then show ?thesis by (simp add: g ex_stroke_def ex_distances)
  qed
  have C: "\<exists>st'.
      addOperation 7 7 (ex_erase ''u'' 0 0 None) ex_canvas = Inr (OpId 7 1, st') \<and>
      getState st' =
        [ex_stroke ''a'' ''brush'' [\<lparr>point_x = 30, point_y = 0\<rparr>],
         ex_stroke ''b'' ''eraser'' [\<lparr>point_x = 0, point_y = 0\<rparr>]]"
  proof -
    from erase_fold [OF t p r20, of 7 7 ex_canvas] obtain st' where
      "addOperation 7 7 (ex_erase ''u'' 0 0 None) ex_canvas = Inr (OpId 7 (Suc 0), st')"
      "last (getHistory st') = with_id (ex_erase ''u'' 0 0 None) (OpId 7 (Suc 0)) 7"
      "getState st' =
         map (\<lambda>s. if s_tool s = Some ''eraser'' then s
               else s\<lparr>s_points :=
                      filter (\<lambda>p. js_gt (distance p \<lparr>point_x = 0, point_y = 0\<rparr>) (Num 20))
                        (s_points s)\<rparr>)
           (filter (\<lambda>s. s_tool s = Some ''eraser'' \<or>
                      (\<exists>p \<in> set (s_points s).
                          js_gt (distance p \<lparr>point_x = 0, point_y = 0\<rparr>) (Num 20)))
              (getState ex_canvas))"
      unfolding c by blast
    then show ?thesis by (simp add: g ex_stroke_def ex_distances)
  qed
  from A B C show ?thesis by blast
qed

text \<open>
  C5 as first stated speaks of the Euclidean distance: every point strictly farther from
  the erase point than the radius is kept. The point \<open>(100000000, 1)\<close> is strictly farther
  than \<open>100000000\<close> from \<open>(0, 0)\<close>, but the sum \<open>10000000000000000 + 1\<close> rounds to
  \<open>10000000000000000\<close>, the computed distance is \<open>100000000\<close>, and an erase of radius
  \<open>100000000\<close> removes the point, and with it the stroke.
\<close>

theorem erase_euclidean_counterexample:
  "sqrt ((100000000 - 0)\<^sup>2 + (1 - 0)\<^sup>2) > (100000000::real) \<and>
   distance \<lparr>point_x = 100000000, point_y = 1\<rparr> \<lparr>point_x = 0, point_y = 0\<rparr> = Num 100000000 \<and>
   (\<exists>st'.
      addOperation 1 1 (ex_erase ''u'' 0 0 (Some 100000000))
        (newDrawingState
           \<lparr>strokes := [ex_stroke ''a'' ''brush'' [\<lparr>point_x = 100000000, point_y = 1\<rparr>]]\<rparr>)
        = Inr (OpId 1 1, st') \<and>
      getState st' = [])"
proof -
  have "sqrt 10000000000000000 < sqrt 10000000000000001"
    by (rule real_sqrt_less_mono) simp
  then have "100000000 < sqrt 10000000000000001" unfolding sqrt_1e16 .
  then have far: "sqrt ((100000000 - 0)\<^sup>2 + (1 - 0)\<^sup>2) > (100000000::real)"
    by simp
  have d: "distance \<lparr>point_x = 100000000, point_y = 1\<rparr> \<lparr>point_x = 0, point_y = 0\<rparr>
             = Num 100000000"
    by (simp add: distance_def rounded_1e16 rounded_tie sqrt_1e16)
  have t: "op_type (ex_erase ''u'' 0 0 (Some 100000000)) = ''erase''"
    and p: "op_point (ex_erase ''u'' 0 0 (Some 100000000)) = Some \<lparr>point_x = 0, point_y = 0\<rparr>"
    by (simp_all add: ex_erase_def)
  have "\<exists>st'.
      addOperation 1 1 (ex_erase ''u'' 0 0 (Some 100000000))
        (newDrawingState
           \<lparr>strokes := [ex_stroke ''a'' ''brush'' [\<lparr>point_x = 100000000, point_y = 1\<rparr>]]\<rparr>)
        = Inr (OpId 1 1, st') \<and>
      getState st' = []"
    using addOperation_erase [OF t p, of 1 1
        "newDrawingState
           \<lparr>strokes := [ex_stroke ''a'' ''brush'' [\<lparr>point_x = 100000000, point_y = 1\<rparr>]]\<rparr>"]
    by (simp add: newDrawingState_def getState_def ex_stroke_def ex_erase_def num_or_def d)
      blast
  with far d show ?thesis by blast
qed

section \<open>Undo after a rebuild\<close>

text \<open>After any rebuild the user index is empty, so the next \<^verbatim>\<open>undo\<close> of any user
  returns \<^verbatim>\<open>null\<close> whatever the log holds.\<close>

lemma undo_after_rebuildState:
  "rebuildState st = Inr st' \<Longrightarrow> undo now userId st' = Inr (None, st')"
  by (auto simp: rebuildState_def undo_def split: sum.splits)

text \<open>
  C1. The claim: \<^verbatim>\<open>undo(userId)\<close> returns none only when the user has no operation
  in the log or all of them are flagged undone, also after a rebuild. The code at a
  concrete input: \<^verbatim>\<open>undo\<close> looks for the user's operations in \<^verbatim>\<open>userOperations\<close>,
  and \<^verbatim>\<open>rebuildState\<close> empties that index without filling it again. User \<open>u\<close> logs
  two operations; the first \<^verbatim>\<open>undo(u)\<close> flags and returns the second one; the next
  \<^verbatim>\<open>undo(u)\<close> returns \<^verbatim>\<open>null\<close> and changes nothing, although the first operation
  is in the log, belongs to \<open>u\<close> and is not flagged undone.
\<close>

theorem undo_after_rebuild_finds_nothing:
  "\<exists>i1 st1 i2 st2 undone st3.
     addOperation 1 1 (ex_draw ''u'' ''s1'' 0 0) newDrawingState = Inr (i1, st1) \<and>
     addOperation 2 2 (ex_draw ''u'' ''s1'' 5 5) st1 = Inr (i2, st2) \<and>
     undo 3 ''u'' st2 = Inr (Some undone, st3) \<and> op_id undone = i2 \<and>
     undo 4 ''u'' st3 = Inr (None, st3) \<and>
     length (operationHistory st3) = 2 \<and>
     op_userId (operationHistory st3 ! 0) = Some ''u'' \<and>
     op_undone (operationHistory st3 ! 0) = False"
  by (simp add: addOperation_def applyOperation_def newDrawingState_def ex_draw_def
      with_id_def Let_def undo_def rebuildState_def)

section \<open>The socket handlers\<close>

lemma with_log_user:
  assumes "users sv socketId = Some usr" "log_of socketId sv = Some st" "f usr st = Inr st'"
  shows "\<exists>sv'. with_log socketId f sv = Inr sv' \<and> log_of socketId sv' = Some st'"
proof -
  from assms(2) obtain r where
    r: "getRoomState (getRoomId socketId (roomManager sv)) (roomManager sv) = Some r"
    and st: "st = objects (roomManager sv) r"
    by (auto simp: log_of_def split: option.splits)
  let ?sv' = "sv\<lparr>roomManager :=
                   (roomManager sv)\<lparr>objects := (objects (roomManager sv))(r := st')\<rparr>\<rparr>"
  have "with_log socketId f sv = Inr ?sv'"
    using assms(1,3) r st by (simp add: with_log_def)
  moreover have "log_of socketId ?sv' = Some st'"
    using r by (simp add: log_of_def getRoomId_def getRoomState_def)
  ultimately show ?thesis by blast
qed

lemma draw_move_as_start:
  "d_strokeId data = Some strokeId \<Longrightarrow>
     on_draw_move t_id t_stamp socketId data sv = on_draw_start t_id t_stamp strokeId socketId data sv"
  by (simp add: on_draw_move_def on_draw_start_def)

lemma erase_operation_zero:
  "erase_operation usr (data\<lparr>e_radius := Some 0\<rparr>) = erase_operation usr (data\<lparr>e_radius := None\<rparr>)"
  by (simp add: erase_operation_def num_or_def)

lemma draw_operation_zero:
  "draw_operation usr sid (data\<lparr>d_lineWidth := Some 0\<rparr>)
     = draw_operation usr sid (data\<lparr>d_lineWidth := None\<rparr>)"
  by (simp add: draw_operation_def num_or_def)

text \<open>
  C10. The numeric defaults are applied by \<^verbatim>\<open>||\<close>, so an explicit \<^verbatim>\<open>0\<close> is
  treated like an absent field. The fold of an operation with radius \<^verbatim>\<open>0\<close> or without
  radius is the fold of the same operation with radius 20. For a connected client whose
  room exists: an \<^verbatim>\<open>erase\<close> message with radius \<^verbatim>\<open>0\<close> leaves the server in the
  same state as one without radius; the logged operation has radius 20 and the strokes
  are folded with radius 20. A \<^verbatim>\<open>draw-start\<close> or \<^verbatim>\<open>draw-move\<close> message with line width
  \<^verbatim>\<open>0\<close> leaves the server in the same state as one without line width; the logged
  operation has line width 5, and the stroke it creates (the stroke id being new) has
  line width 5.
\<close>

theorem falsy_numeric_defaults:
  assumes usr: "users sv socketId = Some usr"
    and log: "log_of socketId sv = Some st"
    and ep: "e_point edata = Some e"
    and dp: "d_point ddata = Some p"
    and fresh: "\<forall>s \<in> set (getState st). s_id s \<noteq> Some strokeId"
    and sid: "d_strokeId ddata = Some strokeId"
  shows
    "applyOperation (operation\<lparr>op_radius := Some 0\<rparr>) ss
       = applyOperation (operation\<lparr>op_radius := Some 20\<rparr>) ss \<and>
     applyOperation (operation\<lparr>op_radius := None\<rparr>) ss
       = applyOperation (operation\<lparr>op_radius := Some 20\<rparr>) ss \<and>
     on_erase t_id t_stamp socketId (edata\<lparr>e_radius := Some 0\<rparr>) sv
       = on_erase t_id t_stamp socketId (edata\<lparr>e_radius := None\<rparr>) sv \<and>
     (\<exists>sv' st'.
        on_erase t_id t_stamp socketId (edata\<lparr>e_radius := Some 0\<rparr>) sv = Inr sv' \<and>
        log_of socketId sv' = Some st' \<and>
        op_type (last (getHistory st')) = ''erase'' \<and>
        op_radius (last (getHistory st')) = Some 20 \<and>
        getState st' =
          map (\<lambda>s. if s_tool s = Some ''eraser'' then s
                    else s\<lparr>s_points := filter (\<lambda>q. js_gt (distance q e) (Num 20)) (s_points s)\<rparr>)
            (filter (\<lambda>s. s_tool s = Some ''eraser'' \<or> (\<exists>q \<in> set (s_points s). js_gt (distance q e) (Num 20)))
               (getState st))) \<and>
     on_draw_start t_id t_stamp strokeId socketId (ddata\<lparr>d_lineWidth := Some 0\<rparr>) sv
       = on_draw_start t_id t_stamp strokeId socketId (ddata\<lparr>d_lineWidth := None\<rparr>) sv \<and>
     on_draw_move t_id t_stamp socketId (ddata\<lparr>d_lineWidth := Some 0\<rparr>) sv
       = on_draw_move t_id t_stamp socketId (ddata\<lparr>d_lineWidth := None\<rparr>) sv \<and>
     (\<exists>sv' st'.
        on_draw_start t_id t_stamp strokeId socketId (ddata\<lparr>d_lineWidth := Some 0\<rparr>) sv = Inr sv' \<and>
        on_draw_move t_id t_stamp socketId (ddata\<lparr>d_lineWidth := Some 0\<rparr>) sv = Inr sv' \<and>
        log_of socketId sv' = Some st' \<and>
        op_lineWidth (last (getHistory st')) = Some 5 \<and>
        getState st' =
          getState st @
            [\<lparr>s_id = Some strokeId, s_userId = Some (u_id usr),
              s_tool = Some (str_or (d_tool ddata) ''brush''),
              s_color = Some (str_or (d_color ddata) (u_color usr)),
              s_lineWidth = Some 5, s_points = [p]\<rparr>])"
proof -
  have Z: "applyOperation (operation\<lparr>op_radius := Some 0\<rparr>) ss
       = applyOperation (operation\<lparr>op_radius := Some 20\<rparr>) ss"
    "applyOperation (operation\<lparr>op_radius := None\<rparr>) ss
       = applyOperation (operation\<lparr>op_radius := Some 20\<rparr>) ss"
    by (simp_all add: applyOperation_def num_or_def cong: option.case_cong)
  have A: "on_erase t_id t_stamp socketId (edata\<lparr>e_radius := Some 0\<rparr>) sv
       = on_erase t_id t_stamp socketId (edata\<lparr>e_radius := None\<rparr>) sv"
    by (simp add: on_erase_def erase_operation_zero)
  have C: "on_draw_start t_id t_stamp strokeId socketId (ddata\<lparr>d_lineWidth := Some 0\<rparr>) sv
       = on_draw_start t_id t_stamp strokeId socketId (ddata\<lparr>d_lineWidth := None\<rparr>) sv"
    by (simp add: on_draw_start_def draw_operation_zero)
  have D: "on_draw_move t_id t_stamp socketId (ddata\<lparr>d_lineWidth := Some 0\<rparr>) sv
       = on_draw_move t_id t_stamp socketId (ddata\<lparr>d_lineWidth := None\<rparr>) sv"
    by (simp add: on_draw_move_def draw_operation_zero)
  let ?eo = "erase_operation usr (edata\<lparr>e_radius := Some 0\<rparr>)"
  have et: "op_type ?eo = ''erase''" and ept: "op_point ?eo = Some e"
    and er: "op_radius ?eo = Some 20"
    using ep by (simp_all add: erase_operation_def num_or_def)
  from addOperation_erase [OF et ept, of t_id t_stamp st] obtain st1 where
    e1: "addOperation t_id t_stamp ?eo st = Inr (OpId t_id (Suc (operationIdCounter st)), st1)"
    and e2: "last (getHistory st1) = with_id ?eo (OpId t_id (Suc (operationIdCounter st))) t_stamp"
    and e3: "getState st1 =
       map (\<lambda>s. if s_tool s = Some ''eraser'' then s
                 else s\<lparr>s_points := filter (\<lambda>q. js_gt (distance q e) (Num 20)) (s_points s)\<rparr>)
         (filter (\<lambda>s. s_tool s = Some ''eraser'' \<or> (\<exists>q \<in> set (s_points s). js_gt (distance q e) (Num 20)))
            (getState st))"
    by (auto simp: er num_or_def)
  have "\<exists>sv'. on_erase t_id t_stamp socketId (edata\<lparr>e_radius := Some 0\<rparr>) sv = Inr sv' \<and>
        log_of socketId sv' = Some st1"
    unfolding on_erase_def
    by (rule with_log_user [OF usr log]) (simp add: e1)
  then have B: "\<exists>sv' st'.
        on_erase t_id t_stamp socketId (edata\<lparr>e_radius := Some 0\<rparr>) sv = Inr sv' \<and>
        log_of socketId sv' = Some st' \<and>
        op_type (last (getHistory st')) = ''erase'' \<and>
        op_radius (last (getHistory st')) = Some 20 \<and>
        getState st' =
          map (\<lambda>s. if s_tool s = Some ''eraser'' then s
                    else s\<lparr>s_points := filter (\<lambda>q. js_gt (distance q e) (Num 20)) (s_points s)\<rparr>)
            (filter (\<lambda>s. s_tool s = Some ''eraser'' \<or> (\<exists>q \<in> set (s_points s). js_gt (distance q e) (Num 20)))
               (getState st))"
    using e2 e3 et er by auto
  let ?dop = "draw_operation usr (Some strokeId) (ddata\<lparr>d_lineWidth := Some 0\<rparr>)"
  let ?o = "with_id ?dop (OpId t_id (Suc (operationIdCounter st))) t_stamp"
  let ?new = "getState st @
            [\<lparr>s_id = Some strokeId, s_userId = Some (u_id usr),
              s_tool = Some (str_or (d_tool ddata) ''brush''),
              s_color = Some (str_or (d_color ddata) (u_color usr)),
              s_lineWidth = Some 5, s_points = [p]\<rparr>]"
  have ap: "applyOperation ?o (strokes st) = Inr ?new"
    using draw_new_stroke [of "strokes st" ?o p] fresh dp
    by (simp add: draw_operation_def getState_def num_or_def)
  obtain st2 where d1: "addOperation t_id t_stamp ?dop st = Inr (OpId t_id (Suc (operationIdCounter st)), st2)"
    and d2: "last (getHistory st2) = ?o" and d3: "getState st2 = ?new"
    using ap by (simp add: addOperation_def Let_def getHistory_def getState_def)
  have "\<exists>sv'. on_draw_start t_id t_stamp strokeId socketId (ddata\<lparr>d_lineWidth := Some 0\<rparr>) sv = Inr sv' \<and>
        log_of socketId sv' = Some st2"
    unfolding on_draw_start_def
    by (rule with_log_user [OF usr log]) (simp add: d1)
  then obtain sv' where s1: "on_draw_start t_id t_stamp strokeId socketId (ddata\<lparr>d_lineWidth := Some 0\<rparr>) sv = Inr sv'"
    and s2: "log_of socketId sv' = Some st2"
    by blast
  have s3: "on_draw_move t_id t_stamp socketId (ddata\<lparr>d_lineWidth := Some 0\<rparr>) sv = Inr sv'"
    using s1 draw_move_as_start [of "ddata\<lparr>d_lineWidth := Some 0\<rparr>" strokeId] sid by simp
  have lw: "op_lineWidth ?o = Some 5" by (simp add: draw_operation_def num_or_def)
  have E: "\<exists>sv' st'.
        on_draw_start t_id t_stamp strokeId socketId (ddata\<lparr>d_lineWidth := Some 0\<rparr>) sv = Inr sv' \<and>
        on_draw_move t_id t_stamp socketId (ddata\<lparr>d_lineWidth := Some 0\<rparr>) sv = Inr sv' \<and>
        log_of socketId sv' = Some st' \<and>
        op_lineWidth (last (getHistory st')) = Some 5 \<and>
        getState st' = ?new"
    using s1 s3 s2 d2 d3 lw by auto
  from Z A B C D E show ?thesis by blast
qed

lemma ex_server_eval:
  "\<exists>sv st. ex_server = Inr sv \<and>
     users sv ''sock'' =
       Some \<lparr>u_id = ''user_1_abcdefghi'', u_username = ''User defghi'', u_color = ''#FF6B6B'',
             u_socketId = ''sock''\<rparr> \<and>
     log_of ''sock'' sv = Some st \<and>
     getHistory st = [with_id (draw_operation \<lparr>u_id = ''user_1_abcdefghi'', u_username = ''User defghi'', u_color = ''#FF6B6B'',
             u_socketId = ''sock''\<rparr> (Some ''s0'') (ex_data None (Some 3) 10 0)) (OpId 1 1) 1] \<and>
     getState st =
       [\<lparr>s_id = Some ''s0'', s_userId = Some ''user_1_abcdefghi'', s_tool = Some ''brush'',
         s_color = Some ''#FF6B6B'', s_lineWidth = Some 3,
         s_points = [\<lparr>point_x = 10, point_y = 0\<rparr>]\<rparr>]"
  by (simp add: ex_server_def on_draw_start_def on_connection_def newServer_def
      newRoomManager_def createRoom_def joinRoom_def leaveRoom_def with_log_def getRoomId_def
      getRoomState_def defaultRoomId_def str_or_def num_or_def Let_def log_of_def
      addOperation_def applyOperation_def newDrawingState_def with_id_def draw_operation_def
      ex_data_def getState_def getHistory_def)

theorem falsy_numeric_defaults_witness:
  "\<exists>sv sv1 st1 sv2 st2.
     ex_server = Inr sv \<and>
     on_erase 2 2 ''sock'' \<lparr>e_point = Some \<lparr>point_x = 0, point_y = 0\<rparr>, e_radius = Some 0\<rparr> sv
       = Inr sv1 \<and>
     on_erase 2 2 ''sock'' \<lparr>e_point = Some \<lparr>point_x = 0, point_y = 0\<rparr>, e_radius = None\<rparr> sv
       = Inr sv1 \<and>
     log_of ''sock'' sv1 = Some st1 \<and>
     op_radius (last (getHistory st1)) = Some 20 \<and>
     getState st1 = [] \<and>
     on_draw_move 2 2 ''sock'' (ex_data (Some ''s1'') (Some 0) 1 1) sv = Inr sv2 \<and>
     on_draw_move 2 2 ''sock'' (ex_data (Some ''s1'') None 1 1) sv = Inr sv2 \<and>
     on_draw_start 2 2 ''s1'' ''sock'' (ex_data (Some ''s1'') (Some 0) 1 1) sv = Inr sv2 \<and>
     log_of ''sock'' sv2 = Some st2 \<and>
     getState st2 =
       [\<lparr>s_id = Some ''s0'', s_userId = Some ''user_1_abcdefghi'', s_tool = Some ''brush'',
         s_color = Some ''#FF6B6B'', s_lineWidth = Some 3,
         s_points = [\<lparr>point_x = 10, point_y = 0\<rparr>]\<rparr>,
        \<lparr>s_id = Some ''s1'', s_userId = Some ''user_1_abcdefghi'', s_tool = Some ''brush'',
         s_color = Some ''#FF6B6B'', s_lineWidth = Some 5,
         s_points = [\<lparr>point_x = 1, point_y = 1\<rparr>]\<rparr>]"
proof -
  let ?usr = "\<lparr>u_id = ''user_1_abcdefghi'', u_username = ''User defghi'',
               u_color = ''#FF6B6B'', u_socketId = ''sock''\<rparr>"
  from ex_server_eval obtain sv st where sv: "ex_server = Inr sv"
    and usr: "users sv ''sock'' = Some ?usr"
    and log: "log_of ''sock'' sv = Some st"
    and g: "getState st =
       [\<lparr>s_id = Some ''s0'', s_userId = Some ''user_1_abcdefghi'', s_tool = Some ''brush'',
         s_color = Some ''#FF6B6B'', s_lineWidth = Some 3,
         s_points = [\<lparr>point_x = 10, point_y = 0\<rparr>]\<rparr>]"
    by blast
  let ?ed = "\<lparr>e_point = Some \<lparr>point_x = 0, point_y = 0\<rparr>, e_radius = Some 7\<rparr>"
  let ?dd = "ex_data (Some ''s1'') (Some 7) 1 1"
  have ep: "e_point ?ed = Some \<lparr>point_x = 0, point_y = 0\<rparr>" by simp
  have dp: "d_point ?dd = Some \<lparr>point_x = 1, point_y = 1\<rparr>" by (simp add: ex_data_def)
  have fresh: "\<forall>s \<in> set (getState st). s_id s \<noteq> Some ''s1''" by (simp add: g)
  have sid: "d_strokeId ?dd = Some ''s1''" by (simp add: ex_data_def)
  note T = falsy_numeric_defaults [OF usr log ep dp fresh sid, where t_id = 2 and t_stamp = 2]
  have ed0: "?ed\<lparr>e_radius := Some 0\<rparr> =
      \<lparr>e_point = Some \<lparr>point_x = 0, point_y = 0\<rparr>, e_radius = Some 0\<rparr>"
    and edn: "?ed\<lparr>e_radius := None\<rparr> =
      \<lparr>e_point = Some \<lparr>point_x = 0, point_y = 0\<rparr>, e_radius = None\<rparr>"
    and dd0: "?dd\<lparr>d_lineWidth := Some 0\<rparr> = ex_data (Some ''s1'') (Some 0) 1 1"
    and ddn: "?dd\<lparr>d_lineWidth := None\<rparr> = ex_data (Some ''s1'') None 1 1"
    by (simp_all add: ex_data_def)
  from T obtain sv1 st1 where
    e1: "on_erase 2 2 ''sock'' (?ed\<lparr>e_radius := Some 0\<rparr>) sv = Inr sv1"
    and e2: "log_of ''sock'' sv1 = Some st1"
    and e3: "op_radius (last (getHistory st1)) = Some 20"
    and e4: "getState st1 =
          map (\<lambda>s. if s_tool s = Some ''eraser'' then s
                    else s\<lparr>s_points :=
                           filter (\<lambda>q. js_gt (distance q \<lparr>point_x = 0, point_y = 0\<rparr>) (Num 20)) (s_points s)\<rparr>)
            (filter (\<lambda>s. s_tool s = Some ''eraser'' \<or>
                       (\<exists>q \<in> set (s_points s). js_gt (distance q \<lparr>point_x = 0, point_y = 0\<rparr>) (Num 20)))
               (getState st))"
    by blast
  from T have e5: "on_erase 2 2 ''sock'' (?ed\<lparr>e_radius := None\<rparr>) sv = Inr sv1"
    using e1 by simp
  have e6: "getState st1 = []"
    unfolding e4 g by (simp add: distance_def sqrt_100)
  from T obtain sv2 st2 where
    d1: "on_draw_start 2 2 ''s1'' ''sock'' (?dd\<lparr>d_lineWidth := Some 0\<rparr>) sv = Inr sv2"
    and d2: "on_draw_move 2 2 ''sock'' (?dd\<lparr>d_lineWidth := Some 0\<rparr>) sv = Inr sv2"
    and d3: "log_of ''sock'' sv2 = Some st2"
    and d4: "getState st2 =
          getState st @
            [\<lparr>s_id = Some ''s1'', s_userId = Some (u_id ?usr),
              s_tool = Some (str_or (d_tool ?dd) ''brush''),
              s_color = Some (str_or (d_color ?dd) (u_color ?usr)),
              s_lineWidth = Some 5, s_points = [\<lparr>point_x = 1, point_y = 1\<rparr>]\<rparr>]"
    by blast
  from T have d5: "on_draw_move 2 2 ''sock'' (?dd\<lparr>d_lineWidth := None\<rparr>) sv = Inr sv2"
    using d2 by simp
  have d6: "getState st2 =
       [\<lparr>s_id = Some ''s0'', s_userId = Some ''user_1_abcdefghi'', s_tool = Some ''brush'',
         s_color = Some ''#FF6B6B'', s_lineWidth = Some 3,
         s_points = [\<lparr>point_x = 10, point_y = 0\<rparr>]\<rparr>,
        \<lparr>s_id = Some ''s1'', s_userId = Some ''user_1_abcdefghi'', s_tool = Some ''brush'',
         s_color = Some ''#FF6B6B'', s_lineWidth = Some 5,
         s_points = [\<lparr>point_x = 1, point_y = 1\<rparr>]\<rparr>]"
    unfolding d4 g by (simp add: ex_data_def str_or_def)
  show ?thesis
    using sv e1 e5 e2 e3 e6 d2 d5 d1 d3 d6 unfolding ed0 edn dd0 ddn by blast
qed

text \<open>
  C2. The claim: a \<^verbatim>\<open>clear\<close> message appends one \<^verbatim>\<open>clear\<close> operation to the log
  of the room and empties the derived strokes, every earlier entry staying in the log.
  The code at a concrete input: the handler logs a \<^verbatim>\<open>clear\<close> operation and then calls
  \<^verbatim>\<open>drawingState.clear()\<close>, which empties the log along with the strokes. A client
  connects and draws one point: the log of its room has one entry. After its \<^verbatim>\<open>clear\<close>
  message the derived strokes are empty and so is the log: the \<^verbatim>\<open>draw\<close> entry is gone
  and no \<^verbatim>\<open>clear\<close> entry is there.
\<close>

theorem clear_message_empties_log:
  "\<exists>sv st sv1 st1.
     ex_server = Inr sv \<and> log_of ''sock'' sv = Some st \<and> length (getHistory st) = 1 \<and>
     on_clear 2 2 ''sock'' sv = Inr sv1 \<and> log_of ''sock'' sv1 = Some st1 \<and>
     getState st1 = [] \<and> getHistory st1 = []"
proof -
  let ?usr = "\<lparr>u_id = ''user_1_abcdefghi'', u_username = ''User defghi'',
               u_color = ''#FF6B6B'', u_socketId = ''sock''\<rparr>"
  from ex_server_eval obtain sv st where sv: "ex_server = Inr sv"
    and usr: "users sv ''sock'' = Some ?usr"
    and log: "log_of ''sock'' sv = Some st"
    and h: "length (getHistory st) = 1"
    by auto
  obtain st' where a: "addOperation 2 2 (clear_operation ?usr) st = Inr (OpId 2 (Suc (operationIdCounter st)), st')"
    by (simp add: addOperation_def applyOperation_def clear_operation_def Let_def)
  have "\<exists>sv1. on_clear 2 2 ''sock'' sv = Inr sv1 \<and> log_of ''sock'' sv1 = Some (clear st')"
    unfolding on_clear_def
    by (rule with_log_user [OF usr log]) (simp add: a)
  moreover have "getState (clear st') = []" "getHistory (clear st') = []"
    by (simp_all add: clear_def getState_def getHistory_def)
  ultimately show ?thesis using sv log h by blast
qed

section \<open>The room registry\<close>

lemma registry_inv_new: "registry_inv newRoomManager"
  by (auto simp: registry_inv_def newRoomManager_def createRoom_def)

lemma registry_inv_createRoom: "registry_inv rm \<Longrightarrow> registry_inv (snd (createRoom roomId rm))"
  by (auto simp: registry_inv_def createRoom_def)

lemma registry_inv_leaveRoom: "registry_inv rm \<Longrightarrow> registry_inv (leaveRoom socketId rm)"
  by (auto simp: registry_inv_def leaveRoom_def Let_def split: option.splits)

lemma registry_inv_add_member:
  assumes "registry_inv rm"
  shows "registry_inv
     (case roomUsers (rm\<lparr>socketToRoom := m\<rparr>) roomId of
        None \<Rightarrow> rm\<lparr>socketToRoom := m\<rparr>
      | Some members \<Rightarrow>
          rm\<lparr>socketToRoom := m\<rparr>
            \<lparr>roomUsers := (roomUsers (rm\<lparr>socketToRoom := m\<rparr>))(roomId \<mapsto> insert socketId members)\<rparr>)"
proof (cases "roomUsers rm roomId")
  case None
  then show ?thesis using assms by (simp add: registry_inv_def)
next
  case (Some members)
  then have "roomId \<in> dom (rooms rm)" using assms by (auto simp: registry_inv_def)
  then have "insert roomId (dom (rooms rm)) = dom (rooms rm)" by blast
  then show ?thesis using assms Some by (simp add: registry_inv_def)
qed

lemma registry_inv_joinRoom:
  assumes "registry_inv rm"
  shows "registry_inv (snd (joinRoom socketId roomId rm))"
proof -
  define rm2 where
    "rm2 = (if rooms (leaveRoom socketId rm) roomId = None
            then snd (createRoom roomId (leaveRoom socketId rm)) else leaveRoom socketId rm)"
  have "registry_inv rm2"
    using assms by (simp add: rm2_def registry_inv_leaveRoom registry_inv_createRoom)
  then show ?thesis
    unfolding joinRoom_def Let_def rm2_def [symmetric] snd_conv
    by (rule registry_inv_add_member)
qed

lemma registry_inv_deleteRoom: "registry_inv rm \<Longrightarrow> registry_inv (snd (deleteRoom roomId rm))"
  by (auto simp: registry_inv_def deleteRoom_def split: option.splits)

lemma registry_inv_do_reg_call: "registry_inv rm \<Longrightarrow> registry_inv (do_reg_call c rm)"
  by (cases c)
    (simp_all add: registry_inv_createRoom registry_inv_joinRoom registry_inv_leaveRoom
      registry_inv_deleteRoom)

lemma registry_inv_run_registry: "registry_inv rm \<Longrightarrow> registry_inv (run_registry cs rm)"
  by (induction cs arbitrary: rm) (simp_all add: registry_inv_do_reg_call)

text \<open>
  C8. After any sequence of \<^verbatim>\<open>createRoom\<close>, \<^verbatim>\<open>joinRoom\<close>, \<^verbatim>\<open>leaveRoom\<close> and
  \<^verbatim>\<open>deleteRoom\<close> calls on a fresh registry, the room \<^verbatim>\<open>'default'\<close> is in the map from
  rooms to logs.
\<close>

theorem default_room_always_exists:
  "defaultRoomId = ''default'' \<and>
   getRoomState ''default'' (run_registry cs newRoomManager) \<noteq> None"
  using registry_inv_run_registry [OF registry_inv_new, of cs]
  by (simp add: registry_inv_def getRoomState_def defaultRoomId_def)


lemma deleteRoom_missing_room:
  "roomUsers rm roomId = None \<Longrightarrow> deleteRoom roomId rm = (False, rm)"
  by (simp add: deleteRoom_def)


subsection \<open>Room isolation\<close>



lemma leaveRoom_rooms [simp]:
  "rooms (leaveRoom socketId rm) = rooms rm" "next_ref (leaveRoom socketId rm) = next_ref rm"
  "objects (leaveRoom socketId rm) = objects rm"
  by (simp_all add: leaveRoom_def Let_def split: option.splits)











end
